theory Spec2Isabelle
  imports Complex_Main "HOL-Library.Log_Nat" "HOL-Library.Multiset"
begin

section \<open>Data model of AuroraPlugin.cpp\<close>

text \<open>
  The plugin's integers are C++ \<open>int\<close>; every value the plugin computes with them is a
  panel identifier, a count or an index bounded by the size of the layout, so they are
  modelled as \<open>int\<close>. Undefined behaviour of the source (reading a vector or the frame
  buffer out of range, reading a local that was never assigned) is a value of \<open>error\<close>.
\<close>

datatype error = OutOfBounds | UninitializedRead

text \<open>\<open>RGB_t\<close> and \<open>Frame_t\<close> of the SDK header, by the fields the plugin touches.\<close>

record RGB_t =
  R :: int
  G :: int
  B :: int

text \<open>A panel of \<open>layoutData->panels\<close>: its identifier and \<open>shape->getCentroid().y\<close>.\<close>

record Panel =
  panelId :: int
  centroidY :: real

type_synonym LayoutData = "Panel list"

record FrameSlice_t =
  panelIds :: "int list"

record Frame_t =
  panelId :: int
  r :: int
  g :: int
  b :: int
  transTime :: int

definition MINIMUM_PANELS_COUNT :: int where "MINIMUM_PANELS_COUNT = 3"
definition RED :: int where "RED = 0"
definition YELLOW :: int where "YELLOW = 1"
definition GREEN :: int where "GREEN = 2"
definition MAXIMUM_COLORS_COUNT :: int where "MAXIMUM_COLORS_COUNT = GREEN + 1"
definition IGNORED_PANEL_ID :: int where "IGNORED_PANEL_ID = - 1"

text \<open>The globals of the plugin.\<close>

record plugin =
  frameSlices :: "FrameSlice_t list"
  transitionTime :: int
  colors :: "RGB_t list"
  colorPanelIds :: "int list"
  currentColorIndex :: int

text \<open>Reading \<open>xs[i]\<close> with an \<open>int\<close> index; out of range is undefined in the source.\<close>

definition elemAt :: "'a list \<Rightarrow> int \<Rightarrow> error + 'a" where
  "elemAt xs i = (if 0 \<le> i \<and> i < int (length xs) then Inr (xs ! nat i) else Inl OutOfBounds)"

section \<open>The Selector: \<open>initPlugin\<close>\<close>

subsection \<open>Colours\<close>

definition defaultColors :: "RGB_t list" where
  "defaultColors =
     [\<lparr>R = 255, G = 0, B = 0\<rparr>, \<lparr>R = 255, G = 255, B = 0\<rparr>, \<lparr>R = 0, G = 255, B = 0\<rparr>]"

text \<open>
  The loop \<open>for (i = 0; i < min(MINIMUM_PANELS_COUNT, paletteColorsCount); i++)
  colors[i] = paletteColors[i]\<close>, by the number of rounds left.
\<close>

fun loadUserColors :: "nat \<Rightarrow> nat \<Rightarrow> RGB_t list \<Rightarrow> RGB_t list \<Rightarrow> RGB_t list" where
  "loadUserColors 0 paletteColorIndex paletteColors cs = cs"
| "loadUserColors (Suc k) paletteColorIndex paletteColors cs =
     loadUserColors k (Suc paletteColorIndex) paletteColors
       (cs[paletteColorIndex := paletteColors ! paletteColorIndex])"

definition initColors :: "RGB_t list \<Rightarrow> RGB_t list" where
  "initColors paletteColors =
     loadUserColors (nat (min MINIMUM_PANELS_COUNT (int (length paletteColors)))) 0
       paletteColors defaultColors"

subsection \<open>The middle slice\<close>

text \<open>Division of C++ \<open>int\<close>s truncates towards zero.\<close>

definition cdiv :: "int \<Rightarrow> int \<Rightarrow> int" where
  "cdiv x y = sgn x * sgn y * (\<bar>x\<bar> div \<bar>y\<bar>)"

text \<open>
  \<open>int middleFrameSliceIndex = ceil((frameSlicesCount - 1) / 2)\<close>: both operands of
  \<open>/\<close> are \<open>int\<close>, so the quotient is taken first, on integers, and \<open>ceil\<close> receives
  that integer converted to \<open>double\<close>.
\<close>

definition middleFrameSliceIndex :: "int \<Rightarrow> int" where
  "middleFrameSliceIndex frameSlicesCount =
     \<lceil>real_of_int (cdiv (frameSlicesCount - 1) 2)\<rceil>"

text \<open>
  The search loop, over the slices not yet visited; the pair is
  \<open>(minimumMiddleFrameSliceDistance, middlestFrameSliceIndex)\<close>.
\<close>

fun searchMiddlest :: "FrameSlice_t list \<Rightarrow> int \<Rightarrow> int \<Rightarrow> int \<times> int \<Rightarrow> int \<times> int" where
  "searchMiddlest [] middle frameSliceIndex acc = acc"
| "searchMiddlest (frameSlice # rest) middle frameSliceIndex (minimumDistance, middlest) =
     (let panelIdsCount = int (length (panelIds frameSlice));
          middleFrameSliceDistance = \<bar>middle - frameSliceIndex\<bar>
      in if panelIdsCount \<ge> MINIMUM_PANELS_COUNT \<and> middleFrameSliceDistance < minimumDistance
         then searchMiddlest rest middle (frameSliceIndex + 1)
                (middleFrameSliceDistance, frameSliceIndex)
         else searchMiddlest rest middle (frameSliceIndex + 1) (minimumDistance, middlest))"

definition middlestFrameSliceIndex :: "FrameSlice_t list \<Rightarrow> int" where
  "middlestFrameSliceIndex slices =
     (let middle = middleFrameSliceIndex (int (length slices));
          found = snd (searchMiddlest slices middle 0 (31, - 1))
      in if found = - 1 then middle else found)"

subsection \<open>Sorting the chosen slice\<close>

text \<open>
  The comparator's loop over \<open>layoutData->panels\<close>; the pair is
  \<open>(firstPanelY, secondPanelY)\<close>, \<open>None\<close> while the local is unassigned.
\<close>

fun findPanelYs ::
  "Panel list \<Rightarrow> int \<Rightarrow> int \<Rightarrow> real option \<times> real option \<Rightarrow> real option \<times> real option" where
  "findPanelYs [] firstPanelId secondPanelId acc = acc"
| "findPanelYs (panel # rest) firstPanelId secondPanelId (firstPanelY, secondPanelY) =
     (if Panel.panelId panel = firstPanelId
      then findPanelYs rest firstPanelId secondPanelId (Some (centroidY panel), secondPanelY)
      else if Panel.panelId panel = secondPanelId
      then findPanelYs rest firstPanelId secondPanelId (firstPanelY, Some (centroidY panel))
      else findPanelYs rest firstPanelId secondPanelId (firstPanelY, secondPanelY))"

definition comparePanelIds :: "LayoutData \<Rightarrow> int \<Rightarrow> int \<Rightarrow> error + bool" where
  "comparePanelIds layoutData firstPanelId secondPanelId =
     (case findPanelYs layoutData firstPanelId secondPanelId (None, None) of
        (Some firstPanelY, Some secondPanelY) \<Rightarrow> Inr (firstPanelY > secondPanelY)
      | _ \<Rightarrow> Inl UninitializedRead)"

text \<open>
  \<open>std::sort\<close> promises a permutation ordered by the comparator and leaves the order of
  equivalent elements open. It is modelled by insertion, one conforming implementation;
  the theorems below speak of the result only as an ordered permutation.
\<close>

fun insertBy :: "(int \<Rightarrow> int \<Rightarrow> error + bool) \<Rightarrow> int \<Rightarrow> int list \<Rightarrow> error + int list" where
  "insertBy cmp x [] = Inr [x]"
| "insertBy cmp x (y # ys) =
     (case cmp x y of
        Inl e \<Rightarrow> Inl e
      | Inr True \<Rightarrow> Inr (x # y # ys)
      | Inr False \<Rightarrow> (case insertBy cmp x ys of Inl e \<Rightarrow> Inl e | Inr zs \<Rightarrow> Inr (y # zs)))"

fun sortBy :: "(int \<Rightarrow> int \<Rightarrow> error + bool) \<Rightarrow> int list \<Rightarrow> error + int list" where
  "sortBy cmp [] = Inr []"
| "sortBy cmp (x # xs) =
     (case sortBy cmp xs of Inl e \<Rightarrow> Inl e | Inr ys \<Rightarrow> insertBy cmp x ys)"

subsection \<open>Binding the slots\<close>

definition bindColorPanelIds :: "int list \<Rightarrow> int list \<Rightarrow> error + int list" where
  "bindColorPanelIds middlestPanelIds ids =
     (let middlestPanelIdsCount = int (length middlestPanelIds)
      in if middlestPanelIdsCount \<ge> 3
         then Inr (ids[0 := middlestPanelIds ! 0, 1 := middlestPanelIds ! 1,
                       2 := middlestPanelIds ! 2])
         else if middlestPanelIdsCount = 2
         then Inr (ids[0 := middlestPanelIds ! 0, 1 := IGNORED_PANEL_ID,
                       2 := middlestPanelIds ! 1])
         else (case elemAt middlestPanelIds 0 of
                 Inl e \<Rightarrow> Inl e
               | Inr single \<Rightarrow> Inr (ids[0 := single, 1 := single, 2 := single])))"

text \<open>
  \<open>initPlugin\<close>: the layout, the palette, the slices and the option \<open>transTime\<close> come from
  the host; \<open>transitionTime\<close> keeps its initial 50 when the option is absent. The result is
  the globals, with \<open>currentColorIndex\<close> at its initial \<open>RED\<close>.
\<close>

definition initPlugin ::
  "LayoutData \<Rightarrow> RGB_t list \<Rightarrow> FrameSlice_t list \<Rightarrow> int option \<Rightarrow> error + plugin" where
  "initPlugin layoutData paletteColors slices transTimeOption =
     (case elemAt slices (middlestFrameSliceIndex slices) of
        Inl e \<Rightarrow> Inl e
      | Inr middlestFrameSlice \<Rightarrow>
          (case sortBy (comparePanelIds layoutData) (panelIds middlestFrameSlice) of
             Inl e \<Rightarrow> Inl e
           | Inr middlestPanelIds \<Rightarrow>
               (case bindColorPanelIds middlestPanelIds [0, 0, 0] of
                  Inl e \<Rightarrow> Inl e
                | Inr ids \<Rightarrow>
                    Inr \<lparr>frameSlices = slices,
                         transitionTime = (case transTimeOption of None \<Rightarrow> 50 | Some t \<Rightarrow> t),
                         colors = initColors paletteColors,
                         colorPanelIds = ids,
                         currentColorIndex = RED\<rparr>)))"

section \<open>The Driver: \<open>getPluginFrame\<close>\<close>

definition bindE :: "error + 'a \<Rightarrow> ('a \<Rightarrow> error + 'b) \<Rightarrow> error + 'b" where
  "bindE m f = (case m of Inl e \<Rightarrow> Inl e | Inr x \<Rightarrow> f x)"

text \<open>
  The frame buffer belongs to the caller: it is a list of the length the caller
  allocated, and a write to \<open>frames[i]\<close> outside it is undefined.
\<close>

definition writeFrame ::
  "Frame_t list \<Rightarrow> int \<Rightarrow> (Frame_t \<Rightarrow> Frame_t) \<Rightarrow> error + Frame_t list" where
  "writeFrame frames i f =
     (if 0 \<le> i \<and> i < int (length frames) then Inr (frames[nat i := f (frames ! nat i)])
      else Inl OutOfBounds)"

text \<open>The locals of \<open>getPluginFrame\<close> that the first loop carries.\<close>

record walk =
  frames :: "Frame_t list"
  index :: int
  redPanelAbsoluteFrameIndex :: int
  yellowPanelAbsoluteFrameIndex :: int
  greenPanelAbsoluteFrameIndex :: int

text \<open>The body of the inner loop, for one panel identifier.\<close>

definition resetPanel :: "int list \<Rightarrow> int \<Rightarrow> walk \<Rightarrow> error + walk" where
  "resetPanel ids pid w =
     bindE (writeFrame (frames w) (index w)
              (\<lambda>f. f\<lparr>panelId := pid, r := 0, g := 0, b := 0, transTime := 1\<rparr>)) (\<lambda>fs.
     bindE (elemAt ids RED) (\<lambda>redId.
     bindE (elemAt ids YELLOW) (\<lambda>yellowId.
     bindE (elemAt ids GREEN) (\<lambda>greenId.
       Inr \<lparr>frames = fs,
            index = index w + 1,
            redPanelAbsoluteFrameIndex =
              (if pid = redId then index w else redPanelAbsoluteFrameIndex w),
            yellowPanelAbsoluteFrameIndex =
              (if pid = yellowId \<and> yellowId \<noteq> IGNORED_PANEL_ID then index w
               else yellowPanelAbsoluteFrameIndex w),
            greenPanelAbsoluteFrameIndex =
              (if pid = greenId then index w else greenPanelAbsoluteFrameIndex w)\<rparr>))))"

fun resetPanels :: "int list \<Rightarrow> int list \<Rightarrow> walk \<Rightarrow> error + walk" where
  "resetPanels ids [] w = Inr w"
| "resetPanels ids (pid # rest) w = bindE (resetPanel ids pid w) (resetPanels ids rest)"

fun resetSlices :: "int list \<Rightarrow> FrameSlice_t list \<Rightarrow> walk \<Rightarrow> error + walk" where
  "resetSlices ids [] w = Inr w"
| "resetSlices ids (frameSlice # rest) w =
     bindE (resetPanels ids (panelIds frameSlice) w) (resetSlices ids rest)"

subsection \<open>The amber delay: \<open>transitionTime * 0.4\<close>\<close>

text \<open>
  The product is taken in \<open>double\<close> and converted back to \<open>int\<close>. A finite \<open>double\<close> is
  modelled by an integer mantissa and a binary exponent, standing for
  \<open>mantissa * 2 ^ exponent\<close>; exponents stay far from the limits of the format here, so
  overflow, subnormals and NaN are left out.
\<close>

record double =
  mantissa :: int
  exponent :: int

definition double_value :: "double \<Rightarrow> real" where
  "double_value d =
     (if 0 \<le> exponent d then real_of_int (mantissa d) * 2 ^ nat (exponent d)
      else real_of_int (mantissa d) / 2 ^ nat (- exponent d))"

text \<open>An \<open>int\<close> has at most 31 significant bits: its conversion is exact.\<close>

definition double_of_int :: "int \<Rightarrow> double" where
  "double_of_int t = \<lparr>mantissa = t, exponent = 0\<rparr>"

text \<open>The literal \<open>0.4\<close>: the \<open>double\<close> \<open>0x3FD999999999999A\<close>, \<open>0x1999999999999A * 2^-54\<close>.\<close>

definition double_0_4 :: double where
  "double_0_4 = \<lparr>mantissa = 7205759403792794, exponent = - 54\<rparr>"

text \<open>
  Rounding \<open>m * 2 ^ e\<close> to 53 significant bits, to nearest, ties to the even mantissa
  (the default rounding mode).
\<close>

definition roundToDouble :: "int \<Rightarrow> int \<Rightarrow> double" where
  "roundToDouble m e =
     (let bits = bitlen \<bar>m\<bar>
      in if bits \<le> 53 then \<lparr>mantissa = m, exponent = e\<rparr>
         else let s = nat (bits - 53);
                  q = \<bar>m\<bar> div 2 ^ s;
                  rest = \<bar>m\<bar> mod 2 ^ s;
                  half = 2 ^ (s - 1);
                  q' = (if rest > half \<or> (rest = half \<and> odd q) then q + 1 else q)
              in \<lparr>mantissa = sgn m * q', exponent = e + int s\<rparr>)"

definition double_mult :: "double \<Rightarrow> double \<Rightarrow> double" where
  "double_mult x y = roundToDouble (mantissa x * mantissa y) (exponent x + exponent y)"

text \<open>Conversion of a \<open>double\<close> to \<open>int\<close> discards the fraction.\<close>

definition int_of_double :: "double \<Rightarrow> int" where
  "int_of_double d =
     (if 0 \<le> exponent d then mantissa d * 2 ^ nat (exponent d)
      else sgn (mantissa d) * (\<bar>mantissa d\<bar> div 2 ^ nat (- exponent d)))"

definition yellowSleepTime :: "int \<Rightarrow> int" where
  "yellowSleepTime t = int_of_double (double_mult (double_of_int t) double_0_4)"

subsection \<open>Colouring the active panel\<close>

definition paint :: "RGB_t \<Rightarrow> Frame_t \<Rightarrow> Frame_t" where
  "paint color f = f\<lparr>r := R color, g := G color, b := B color, transTime := 1\<rparr>"

text \<open>
  The \<open>switch\<close> on \<open>currentColorIndex\<close>; it has no \<open>default\<close>, so for any other
  value the buffer and \<open>*sleepTime\<close> are left as they were.
\<close>

definition setCurrentColor :: "plugin \<Rightarrow> walk \<Rightarrow> int \<Rightarrow> error + Frame_t list \<times> int" where
  "setCurrentColor p w sleepTime =
     (if currentColorIndex p = RED then
        bindE (elemAt (colors p) RED) (\<lambda>color.
        bindE (writeFrame (frames w) (redPanelAbsoluteFrameIndex w) (paint color)) (\<lambda>fs.
          Inr (fs, transitionTime p)))
      else if currentColorIndex p = YELLOW then
        bindE (elemAt (colors p) YELLOW) (\<lambda>color.
        bindE (writeFrame (frames w) (yellowPanelAbsoluteFrameIndex w) (paint color)) (\<lambda>fs.
          Inr (fs, yellowSleepTime (transitionTime p))))
      else if currentColorIndex p = GREEN then
        bindE (elemAt (colors p) GREEN) (\<lambda>color.
        bindE (writeFrame (frames w) (greenPanelAbsoluteFrameIndex w) (paint color)) (\<lambda>fs.
          Inr (fs, transitionTime p)))
      else Inr (frames w, sleepTime))"

subsection \<open>Advancing the slot\<close>

text \<open>
  The \<open>do ... while\<close> loop: \<open>advanceColor\<close> is the increment with its wrap, one round of
  the body. The loop has no bound of its own, so it is a partial function: \<open>None\<close> is a
  loop that never ends.
\<close>

definition advanceColor :: "int \<Rightarrow> int" where
  "advanceColor c = (let c1 = c + 1 in if c1 \<ge> MAXIMUM_COLORS_COUNT then RED else c1)"

partial_function (option) nextColor :: "int list \<Rightarrow> int \<Rightarrow> (error + int) option" where
  "nextColor ids c =
     (let c2 = advanceColor c
      in case elemAt ids c2 of
           Inl e \<Rightarrow> Some (Inl e)
         | Inr boundId \<Rightarrow> if boundId = IGNORED_PANEL_ID then nextColor ids c2 else Some (Inr c2))"

text \<open>What one call hands back: the buffer, \<open>*nFrames\<close>, \<open>*sleepTime\<close> and the globals.\<close>

record tick =
  outFrames :: "Frame_t list"
  nFrames :: int
  sleepTime :: int
  after :: plugin

definition initialWalk :: "Frame_t list \<Rightarrow> walk" where
  "initialWalk buffer =
     \<lparr>frames = buffer, index = 0, redPanelAbsoluteFrameIndex = 0,
      yellowPanelAbsoluteFrameIndex = 0, greenPanelAbsoluteFrameIndex = 0\<rparr>"

definition getPluginFrame :: "plugin \<Rightarrow> Frame_t list \<Rightarrow> int \<Rightarrow> (error + tick) option" where
  "getPluginFrame p buffer sleepTime0 =
     (case resetSlices (colorPanelIds p) (frameSlices p) (initialWalk buffer) of
        Inl e \<Rightarrow> Some (Inl e)
      | Inr w \<Rightarrow>
          (case setCurrentColor p w sleepTime0 of
             Inl e \<Rightarrow> Some (Inl e)
           | Inr (fs, sleep) \<Rightarrow>
               (case nextColor (colorPanelIds p) (currentColorIndex p) of
                  None \<Rightarrow> None
                | Some (Inl e) \<Rightarrow> Some (Inl e)
                | Some (Inr c) \<Rightarrow>
                    Some (Inr \<lparr>outFrames = fs, nFrames = index w, sleepTime = sleep,
                               after = p\<lparr>currentColorIndex := c\<rparr>\<rparr>))))"

section \<open>Notions the properties are stated with\<close>

definition hasThreePanels :: "FrameSlice_t \<Rightarrow> bool" where
  "hasThreePanels frameSlice \<longleftrightarrow> MINIMUM_PANELS_COUNT \<le> int (length (panelIds frameSlice))"

definition distanceToMiddle :: "FrameSlice_t list \<Rightarrow> nat \<Rightarrow> int" where
  "distanceToMiddle slices j = \<bar>middleFrameSliceIndex (int (length slices)) - int j\<bar>"

text \<open>A slice the search can settle on: three panels or more, and nearer than the initial 31.\<close>

definition qualifies :: "FrameSlice_t list \<Rightarrow> nat \<Rightarrow> bool" where
  "qualifies slices j \<longleftrightarrow>
     j < length slices \<and> hasThreePanels (slices ! j) \<and> distanceToMiddle slices j < 31"

text \<open>63 slices: three panels in the leftmost one, one panel in each of the others.\<close>

definition wideSlices :: "FrameSlice_t list" where
  "wideSlices = \<lparr>panelIds = [1, 2, 3]\<rparr> # map (\<lambda>i. \<lparr>panelIds = [i]\<rparr>) [4..65]"

text \<open>
  The vertical coordinate the comparator finds for an identifier: that of the last panel
  of the layout carrying it, the loop keeping its last assignment.
\<close>

fun centroidOf :: "LayoutData \<Rightarrow> int \<Rightarrow> real option" where
  "centroidOf [] pid = None"
| "centroidOf (panel # rest) pid =
     (case centroidOf rest pid of
        Some y \<Rightarrow> Some y
      | None \<Rightarrow> if Panel.panelId panel = pid then Some (centroidY panel) else None)"

text \<open>Top to bottom: the first panel is at least as high as the second.\<close>

definition notBelow :: "LayoutData \<Rightarrow> int \<Rightarrow> int \<Rightarrow> bool" where
  "notBelow layoutData p q =
     (case (centroidOf layoutData p, centroidOf layoutData q) of
        (Some y, Some y') \<Rightarrow> y \<ge> y'
      | _ \<Rightarrow> False)"

text \<open>
  What the Selector expects of the host: at least one slice, no empty slice, no identifier
  twice in a slice, and every identifier of a slice carried by a panel of the layout.
\<close>

definition wellFormed :: "LayoutData \<Rightarrow> FrameSlice_t list \<Rightarrow> bool" where
  "wellFormed layoutData slices \<longleftrightarrow>
     slices \<noteq> [] \<and>
     (\<forall>frameSlice \<in> set slices.
        panelIds frameSlice \<noteq> [] \<and> distinct (panelIds frameSlice) \<and>
        (\<forall>pid \<in> set (panelIds frameSlice). centroidOf layoutData pid \<noteq> None))"

text \<open>No panel carries the value reserved for the ignored slot.\<close>

definition realPanels :: "FrameSlice_t list \<Rightarrow> bool" where
  "realPanels slices \<longleftrightarrow>
     (\<forall>frameSlice \<in> set slices. IGNORED_PANEL_ID \<notin> set (panelIds frameSlice))"

text \<open>The slice the Selector settles on.\<close>

definition middlestFrameSlice :: "FrameSlice_t list \<Rightarrow> FrameSlice_t" where
  "middlestFrameSlice slices = slices ! nat (middlestFrameSliceIndex slices)"

text \<open>Every panel identifier, in slice order and then in the order within the slice.\<close>

definition allPanelIds :: "FrameSlice_t list \<Rightarrow> int list" where
  "allPanelIds slices = concat (map panelIds slices)"

text \<open>A frame entry as the first loop leaves it: black, one tick.\<close>

definition blackFrame :: "int \<Rightarrow> Frame_t" where
  "blackFrame pid = \<lparr>panelId = pid, r = 0, g = 0, b = 0, transTime = 1\<rparr>"

definition isBlack :: "Frame_t \<Rightarrow> bool" where
  "isBlack f \<longleftrightarrow> r f = 0 \<and> g f = 0 \<and> b f = 0"

definition hasColor :: "Frame_t \<Rightarrow> RGB_t \<Rightarrow> bool" where
  "hasColor f color \<longleftrightarrow> r f = R color \<and> g f = G color \<and> b f = B color"

text \<open>
  What holds of the globals whenever the host calls the Driver: three colours and three
  slots, the current slot one of the three and bound to a panel, and every slot that is
  not ignored bound to a panel of the slices.
\<close>

definition inService :: "plugin \<Rightarrow> bool" where
  "inService p \<longleftrightarrow>
     length (colors p) = 3 \<and> length (colorPanelIds p) = 3 \<and>
     currentColorIndex p \<in> {RED, YELLOW, GREEN} \<and>
     colorPanelIds p ! nat (currentColorIndex p) \<noteq> IGNORED_PANEL_ID \<and>
     (\<forall>slot \<in> {RED, YELLOW, GREEN}.
        colorPanelIds p ! nat slot \<noteq> IGNORED_PANEL_ID \<longrightarrow>
        colorPanelIds p ! nat slot \<in> set (allPanelIds (frameSlices p)))"


text \<open>
  What the first loop records for a slot bound to \<open>target\<close>: the position of a panel
  carrying it, counted from \<open>start\<close>, or the value before the loop when no panel does.
\<close>

definition tracked :: "int \<Rightarrow> int list \<Rightarrow> int \<Rightarrow> int \<Rightarrow> int \<Rightarrow> bool" where
  "tracked target pids start before recorded \<longleftrightarrow>
     (target \<notin> set pids \<and> recorded = before) \<or>
     (\<exists>k<length pids. pids ! k = target \<and> recorded = start + int k)"

text \<open>A real number with its fraction discarded.\<close>

definition truncated :: "real \<Rightarrow> int" where
  "truncated x = (if 0 \<le> x then \<lfloor>x\<rfloor> else \<lceil>x\<rceil>)"

subsection \<open>Sample layouts\<close>

text \<open>Five panels, higher identifiers higher up.\<close>

definition sampleLayout :: LayoutData where
  "sampleLayout =
     [\<lparr>Panel.panelId = 10, centroidY = 0\<rparr>, \<lparr>Panel.panelId = 20, centroidY = 1\<rparr>,
      \<lparr>Panel.panelId = 30, centroidY = 2\<rparr>, \<lparr>Panel.panelId = 40, centroidY = 3\<rparr>,
      \<lparr>Panel.panelId = 50, centroidY = 4\<rparr>]"

text \<open>One panel per slice.\<close>

definition singleSlices :: "FrameSlice_t list" where
  "singleSlices =
     [\<lparr>panelIds = [10]\<rparr>, \<lparr>panelIds = [20]\<rparr>, \<lparr>panelIds = [30]\<rparr>, \<lparr>panelIds = [40]\<rparr>,
      \<lparr>panelIds = [50]\<rparr>]"

text \<open>A column of three panels in the middle.\<close>

definition columnSlices :: "FrameSlice_t list" where
  "columnSlices = [\<lparr>panelIds = [10]\<rparr>, \<lparr>panelIds = [20, 40, 30]\<rparr>, \<lparr>panelIds = [50]\<rparr>]"

text \<open>A pair of panels in the middle.\<close>

definition pairSlices :: "FrameSlice_t list" where
  "pairSlices = [\<lparr>panelIds = [10]\<rparr>, \<lparr>panelIds = [20, 30]\<rparr>, \<lparr>panelIds = [40]\<rparr>]"

text \<open>A pair of panels on the left, single panels in the middle and on the right.\<close>

definition leftPairSlices :: "FrameSlice_t list" where
  "leftPairSlices = [\<lparr>panelIds = [10, 20]\<rparr>, \<lparr>panelIds = [30]\<rparr>, \<lparr>panelIds = [40]\<rparr>]"

text \<open>A layout with a panel whose identifier is \<open>-1\<close>, below panel 7 in the middle slice.\<close>

definition minusOneLayout :: LayoutData where
  "minusOneLayout =
     [\<lparr>Panel.panelId = 5, centroidY = 0\<rparr>, \<lparr>Panel.panelId = 7, centroidY = 2\<rparr>,
      \<lparr>Panel.panelId = - 1, centroidY = 1\<rparr>, \<lparr>Panel.panelId = 9, centroidY = 0\<rparr>]"

definition minusOneSlices :: "FrameSlice_t list" where
  "minusOneSlices = [\<lparr>panelIds = [5]\<rparr>, \<lparr>panelIds = [7, - 1]\<rparr>, \<lparr>panelIds = [9]\<rparr>]"

text \<open>A palette whose only colour is black, and a buffer of six entries with stale contents.\<close>

definition darkPalette :: "RGB_t list" where
  "darkPalette = [\<lparr>R = 0, G = 0, B = 0\<rparr>]"

definition spareBuffer :: "Frame_t list" where
  "spareBuffer =
     [\<lparr>panelId = 7, r = 7, g = 7, b = 7, transTime = 7\<rparr>,
      \<lparr>panelId = 7, r = 7, g = 7, b = 7, transTime = 7\<rparr>,
      \<lparr>panelId = 7, r = 7, g = 7, b = 7, transTime = 7\<rparr>,
      \<lparr>panelId = 7, r = 7, g = 7, b = 7, transTime = 7\<rparr>,
      \<lparr>panelId = 7, r = 7, g = 7, b = 7, transTime = 7\<rparr>,
      \<lparr>panelId = 7, r = 7, g = 7, b = 7, transTime = 7\<rparr>]"

text \<open>The globals the Selector leaves on the sample layouts.\<close>

definition columnPlugin :: plugin where
  "columnPlugin =
     \<lparr>frameSlices = columnSlices, transitionTime = 50, colors = defaultColors,
      colorPanelIds = [40, 30, 20], currentColorIndex = 0\<rparr>"

definition pairPlugin :: plugin where
  "pairPlugin =
     \<lparr>frameSlices = pairSlices, transitionTime = 50, colors = defaultColors,
      colorPanelIds = [30, - 1, 20], currentColorIndex = 0\<rparr>"

definition darkPlugin :: plugin where
  "darkPlugin =
     \<lparr>frameSlices = singleSlices, transitionTime = 50,
      colors = [\<lparr>R = 0, G = 0, B = 0\<rparr>, \<lparr>R = 255, G = 255, B = 0\<rparr>, \<lparr>R = 0, G = 255, B = 0\<rparr>],
      colorPanelIds = [30, 30, 30], currentColorIndex = 0\<rparr>"

text \<open>One panel per slice, \<open>transTime = 51\<close>, after the first call: the current slot is YELLOW.\<close>

definition amberPlugin :: plugin where
  "amberPlugin =
     \<lparr>frameSlices = singleSlices, transitionTime = 51, colors = defaultColors,
      colorPanelIds = [30, 30, 30], currentColorIndex = 1\<rparr>"

section \<open>The middle index\<close>

lemmas plugin_consts =
  MINIMUM_PANELS_COUNT_def RED_def YELLOW_def GREEN_def MAXIMUM_COLORS_COUNT_def
  IGNORED_PANEL_ID_def

lemma middleFrameSliceIndex_cdiv: "middleFrameSliceIndex n = cdiv (n - 1) 2"
  unfolding middleFrameSliceIndex_def by (rule ceiling_of_int)

lemma middleFrameSliceIndex_floor:
  "1 \<le> n \<Longrightarrow> middleFrameSliceIndex n = (n - 1) div 2"
  by (cases "n = 1") (simp_all add: middleFrameSliceIndex_cdiv cdiv_def)

text \<open>
  For an odd number of slices the quotient is exact and the index is the centre; for an
  even number the source's index is the slice before the centre, one below the ceiling.
\<close>

lemma middleFrameSliceIndex_odd:
  assumes "0 \<le> m"
  shows "middleFrameSliceIndex (2 * m + 1) = m"
    and "\<lceil>(real_of_int (2 * m + 1) - 1) / 2\<rceil> = m"
  using assms by (simp_all add: middleFrameSliceIndex_floor)

lemma middleFrameSliceIndex_even:
  assumes "1 \<le> m"
  shows "middleFrameSliceIndex (2 * m) = m - 1"
    and "\<lceil>(real_of_int (2 * m) - 1) / 2\<rceil> = m"
proof -
  from assms have "middleFrameSliceIndex (2 * m) = (2 * m - 1) div 2"
    by (intro middleFrameSliceIndex_floor) simp
  also have "\<dots> = m - 1" by presburger
  finally show "middleFrameSliceIndex (2 * m) = m - 1" .
  show "\<lceil>(real_of_int (2 * m) - 1) / 2\<rceil> = m"
    by (rule ceiling_unique) (simp_all add: field_simps)
qed

text \<open>
  C2. The claim: for every slice count \<open>N \<ge> 1\<close> the middle index equals
  \<open>ceil((N-1)/2)\<close>, so that for even \<open>N\<close> the tie goes to the slice after the centre.
  The source divides two \<open>int\<close>s before it calls \<open>ceil\<close>: for two slices it computes
  index 0, where the ceiling of 1/2 is 1.
\<close>

theorem middleFrameSliceIndex_two_slices:
  "middleFrameSliceIndex 2 = 0 \<and> \<lceil>(2 - 1) / (2 :: real)\<rceil> = 1"
proof
  show "middleFrameSliceIndex 2 = 0"
    by (simp add: middleFrameSliceIndex_cdiv cdiv_def)
  have "\<lceil>(1 :: real) / 2\<rceil> = 1"
    by (rule ceiling_unique) simp_all
  then show "\<lceil>(2 - 1) / (2 :: real)\<rceil> = 1"
    by simp
qed

section \<open>The search for the middlemost slice\<close>

lemma searchMiddlest_result:
  "(searchMiddlest ss mid i (mn, best) = (mn, best) \<and>
      (\<forall>j<length ss. hasThreePanels (ss ! j) \<longrightarrow> mn \<le> \<bar>mid - (i + int j)\<bar>))
   \<or> (\<exists>k<length ss.
         searchMiddlest ss mid i (mn, best) = (\<bar>mid - (i + int k)\<bar>, i + int k) \<and>
         hasThreePanels (ss ! k) \<and> \<bar>mid - (i + int k)\<bar> < mn \<and>
         (\<forall>j<length ss. hasThreePanels (ss ! j) \<longrightarrow>
            \<bar>mid - (i + int k)\<bar> \<le> \<bar>mid - (i + int j)\<bar>) \<and>
         (\<forall>j<k. hasThreePanels (ss ! j) \<longrightarrow> \<bar>mid - (i + int k)\<bar> < \<bar>mid - (i + int j)\<bar>))"
proof (induction ss arbitrary: i mn best)
  case Nil
  then show ?case by simp
next
  case (Cons s ss)
  let ?d = "\<bar>mid - i\<bar>"
  have tail:
    "\<exists>k<length (s # ss).
        searchMiddlest ss mid (i + 1) acc = (\<bar>mid - (i + int k)\<bar>, i + int k) \<and>
        hasThreePanels ((s # ss) ! k) \<and> \<bar>mid - (i + int k)\<bar> < mn \<and>
        (\<forall>j<length (s # ss). hasThreePanels ((s # ss) ! j) \<longrightarrow>
           \<bar>mid - (i + int k)\<bar> \<le> \<bar>mid - (i + int j)\<bar>) \<and>
        (\<forall>j<k. hasThreePanels ((s # ss) ! j) \<longrightarrow> \<bar>mid - (i + int k)\<bar> < \<bar>mid - (i + int j)\<bar>)"
    if k: "k' < length ss"
      and a: "searchMiddlest ss mid (i + 1) acc = (\<bar>mid - (i + 1 + int k')\<bar>, i + 1 + int k')"
      and ok: "hasThreePanels (ss ! k')"
      and lt: "\<bar>mid - (i + 1 + int k')\<bar> < mn'"
      and le: "mn' \<le> mn"
      and hd: "hasThreePanels s \<Longrightarrow> mn' \<le> ?d"
      and least: "\<forall>j<length ss. hasThreePanels (ss ! j) \<longrightarrow>
                    \<bar>mid - (i + 1 + int k')\<bar> \<le> \<bar>mid - (i + 1 + int j)\<bar>"
      and first: "\<forall>j<k'. hasThreePanels (ss ! j) \<longrightarrow>
                    \<bar>mid - (i + 1 + int k')\<bar> < \<bar>mid - (i + 1 + int j)\<bar>"
    for k' acc mn'
  proof -
    have e: "i + 1 + int k' = i + int (Suc k')" by simp
    have l': "\<forall>j<length (s # ss). hasThreePanels ((s # ss) ! j) \<longrightarrow>
                \<bar>mid - (i + int (Suc k'))\<bar> \<le> \<bar>mid - (i + int j)\<bar>"
    proof (intro allI impI)
      fix j assume "j < length (s # ss)" "hasThreePanels ((s # ss) ! j)"
      then show "\<bar>mid - (i + int (Suc k'))\<bar> \<le> \<bar>mid - (i + int j)\<bar>"
        using least lt hd by (cases j) (auto simp: algebra_simps)
    qed
    have f': "\<forall>j<Suc k'. hasThreePanels ((s # ss) ! j) \<longrightarrow>
                \<bar>mid - (i + int (Suc k'))\<bar> < \<bar>mid - (i + int j)\<bar>"
    proof (intro allI impI)
      fix j assume "j < Suc k'" "hasThreePanels ((s # ss) ! j)"
      then show "\<bar>mid - (i + int (Suc k'))\<bar> < \<bar>mid - (i + int j)\<bar>"
        using first lt hd by (cases j) (auto simp: algebra_simps)
    qed
    from lt le have "\<bar>mid - (i + int (Suc k'))\<bar> < mn"
      unfolding e [symmetric] by linarith
    with k a ok l' f' show ?thesis
      unfolding e by (intro exI [of _ "Suc k'"]) simp
  qed
  show ?case
  proof (cases "hasThreePanels s \<and> ?d < mn")
    case True
    then have step:
      "searchMiddlest (s # ss) mid i (mn, best) = searchMiddlest ss mid (i + 1) (?d, i)"
      by (simp add: hasThreePanels_def)
    from Cons.IH [of "i + 1" ?d i] show ?thesis
    proof (elim disjE conjE exE)
      assume a: "searchMiddlest ss mid (i + 1) (?d, i) = (?d, i)"
        and b: "\<forall>j<length ss. hasThreePanels (ss ! j) \<longrightarrow> ?d \<le> \<bar>mid - (i + 1 + int j)\<bar>"
      have "\<forall>j<length (s # ss). hasThreePanels ((s # ss) ! j) \<longrightarrow> ?d \<le> \<bar>mid - (i + int j)\<bar>"
      proof (intro allI impI)
        fix j assume "j < length (s # ss)" "hasThreePanels ((s # ss) ! j)"
        then show "?d \<le> \<bar>mid - (i + int j)\<bar>"
          using b by (cases j) (auto simp: algebra_simps)
      qed
      with True step a show ?thesis
        by (intro disjI2 exI [of _ 0]) simp
    next
      fix k
      assume "k < length ss"
        "searchMiddlest ss mid (i + 1) (?d, i) = (\<bar>mid - (i + 1 + int k)\<bar>, i + 1 + int k)"
        "hasThreePanels (ss ! k)" "\<bar>mid - (i + 1 + int k)\<bar> < ?d"
        "\<forall>j<length ss. hasThreePanels (ss ! j) \<longrightarrow>
           \<bar>mid - (i + 1 + int k)\<bar> \<le> \<bar>mid - (i + 1 + int j)\<bar>"
        "\<forall>j<k. hasThreePanels (ss ! j) \<longrightarrow> \<bar>mid - (i + 1 + int k)\<bar> < \<bar>mid - (i + 1 + int j)\<bar>"
      then have ?thesis if "?d \<le> mn"
        using tail [of k "(?d, i)" ?d] step that by simp
      with True show ?thesis by simp
    qed
  next
    case False
    then have step:
      "searchMiddlest (s # ss) mid i (mn, best) = searchMiddlest ss mid (i + 1) (mn, best)"
      by (auto simp add: hasThreePanels_def)
    from False have hd: "hasThreePanels s \<Longrightarrow> mn \<le> ?d" by simp
    from Cons.IH [of "i + 1" mn best] show ?thesis
    proof (elim disjE conjE exE)
      assume a: "searchMiddlest ss mid (i + 1) (mn, best) = (mn, best)"
        and b: "\<forall>j<length ss. hasThreePanels (ss ! j) \<longrightarrow> mn \<le> \<bar>mid - (i + 1 + int j)\<bar>"
      have "\<forall>j<length (s # ss). hasThreePanels ((s # ss) ! j) \<longrightarrow> mn \<le> \<bar>mid - (i + int j)\<bar>"
      proof (intro allI impI)
        fix j assume "j < length (s # ss)" "hasThreePanels ((s # ss) ! j)"
        then show "mn \<le> \<bar>mid - (i + int j)\<bar>"
          using b hd by (cases j) (auto simp: algebra_simps)
      qed
      with step a show ?thesis by simp
    next
      fix k
      assume "k < length ss"
        "searchMiddlest ss mid (i + 1) (mn, best) = (\<bar>mid - (i + 1 + int k)\<bar>, i + 1 + int k)"
        "hasThreePanels (ss ! k)" "\<bar>mid - (i + 1 + int k)\<bar> < mn"
        "\<forall>j<length ss. hasThreePanels (ss ! j) \<longrightarrow>
           \<bar>mid - (i + 1 + int k)\<bar> \<le> \<bar>mid - (i + 1 + int j)\<bar>"
        "\<forall>j<k. hasThreePanels (ss ! j) \<longrightarrow> \<bar>mid - (i + 1 + int k)\<bar> < \<bar>mid - (i + 1 + int j)\<bar>"
      then show ?thesis
        using tail [of k "(mn, best)" mn] step hd by simp
    qed
  qed
qed

text \<open>The search from index 0 with the initial pair \<open>(31, -1)\<close>, in terms of \<open>qualifies\<close>.\<close>

lemma middlestFrameSliceIndex_found:
  assumes "qualifies slices j0"
  shows "\<exists>k. middlestFrameSliceIndex slices = int k \<and> qualifies slices k \<and>
           (\<forall>j. qualifies slices j \<longrightarrow>
              distanceToMiddle slices k \<le> distanceToMiddle slices j \<and>
              (distanceToMiddle slices j = distanceToMiddle slices k \<longrightarrow> k \<le> j))"
proof -
  let ?mid = "middleFrameSliceIndex (int (length slices))"
  from searchMiddlest_result [of slices ?mid 0 31 "- 1"] show ?thesis
  proof (elim disjE conjE exE)
    assume "\<forall>j<length slices. hasThreePanels (slices ! j) \<longrightarrow> 31 \<le> \<bar>?mid - (0 + int j)\<bar>"
    with assms show ?thesis
      by (auto simp: qualifies_def distanceToMiddle_def)
  next
    fix k
    assume k: "k < length slices"
      and a: "searchMiddlest slices ?mid 0 (31, - 1) = (\<bar>?mid - (0 + int k)\<bar>, 0 + int k)"
      and ok: "hasThreePanels (slices ! k)" and lt: "\<bar>?mid - (0 + int k)\<bar> < 31"
      and least: "\<forall>j<length slices. hasThreePanels (slices ! j) \<longrightarrow>
                    \<bar>?mid - (0 + int k)\<bar> \<le> \<bar>?mid - (0 + int j)\<bar>"
      and first: "\<forall>j<k. hasThreePanels (slices ! j) \<longrightarrow>
                    \<bar>?mid - (0 + int k)\<bar> < \<bar>?mid - (0 + int j)\<bar>"
    from a have "middlestFrameSliceIndex slices = int k"
      by (simp add: middlestFrameSliceIndex_def)
    moreover from k ok lt have "qualifies slices k"
      by (simp add: qualifies_def distanceToMiddle_def)
    moreover have "distanceToMiddle slices k \<le> distanceToMiddle slices j \<and>
        (distanceToMiddle slices j = distanceToMiddle slices k \<longrightarrow> k \<le> j)"
      if "qualifies slices j" for j
    proof
      from that least show "distanceToMiddle slices k \<le> distanceToMiddle slices j"
        by (simp add: qualifies_def distanceToMiddle_def)
      show "distanceToMiddle slices j = distanceToMiddle slices k \<longrightarrow> k \<le> j"
      proof (rule impI, rule ccontr)
        assume eq: "distanceToMiddle slices j = distanceToMiddle slices k" and "\<not> k \<le> j"
        then have "j < k" by simp
        with first that have "distanceToMiddle slices k < distanceToMiddle slices j"
          by (simp add: qualifies_def distanceToMiddle_def)
        with eq show False by simp
      qed
    qed
    ultimately show ?thesis by blast
  qed
qed

lemma middlestFrameSliceIndex_fallback:
  assumes "\<And>j. \<not> qualifies slices j"
  shows "middlestFrameSliceIndex slices = middleFrameSliceIndex (int (length slices))"
proof -
  let ?mid = "middleFrameSliceIndex (int (length slices))"
  from searchMiddlest_result [of slices ?mid 0 31 "- 1"] show ?thesis
  proof (elim disjE conjE exE)
    assume "searchMiddlest slices ?mid 0 (31, - 1) = (31, - 1)"
    then show ?thesis
      by (simp add: middlestFrameSliceIndex_def)
  next
    fix k
    assume "k < length slices" "hasThreePanels (slices ! k)" "\<bar>?mid - (0 + int k)\<bar> < 31"
    then have "qualifies slices k"
      by (simp add: qualifies_def distanceToMiddle_def)
    with assms show ?thesis by blast
  qed
qed

lemma distanceToMiddle_small:
  assumes "length slices \<le> 61" "j < length slices"
  shows "distanceToMiddle slices j < 31"
proof -
  from assms have "1 \<le> int (length slices)" by simp
  then have "middleFrameSliceIndex (int (length slices)) = (int (length slices) - 1) div 2"
    by (rule middleFrameSliceIndex_floor)
  with assms show ?thesis
    unfolding distanceToMiddle_def by linarith
qed

lemma wideSlices_chosen: "middlestFrameSliceIndex wideSlices = 31"
  by (simp add: wideSlices_def middlestFrameSliceIndex_def middleFrameSliceIndex_cdiv cdiv_def
      upto.simps plugin_consts)

text \<open>
  C3, as stated. The claim: for every slice sequence the chosen slice is the nearest to the
  middle among those with three panels or more, any such slice replacing the initial 31.
  In \<open>wideSlices\<close> the middle index is 31 and the only slice with three panels is at
  index 0, at distance 31: it does not replace the initial 31, and the single-panel slice at
  the middle is chosen.
\<close>

theorem wideSlices_three_panels_not_chosen:
  "hasThreePanels (wideSlices ! 0) \<and>
   middlestFrameSliceIndex wideSlices = 31 \<and>
   \<not> hasThreePanels (wideSlices ! 31)"
  using wideSlices_chosen
  by (simp add: wideSlices_def hasThreePanels_def upto.simps plugin_consts)

text \<open>
  C3, amended. Among the slices with three panels or more that lie at a distance below 31
  from the middle index, the nearest is chosen, the lowest index on a tie; when there is no
  such slice, the slice at the middle index is chosen. Up to 61 slices every slice lies at a
  distance below 31.
\<close>

theorem middlestFrameSliceIndex_closest:
  "((\<exists>j. qualifies slices j) \<longrightarrow>
      (\<exists>k. middlestFrameSliceIndex slices = int k \<and> qualifies slices k \<and>
         (\<forall>j. qualifies slices j \<longrightarrow>
            distanceToMiddle slices k \<le> distanceToMiddle slices j \<and>
            (distanceToMiddle slices j = distanceToMiddle slices k \<longrightarrow> k \<le> j)))) \<and>
   ((\<forall>j. \<not> qualifies slices j) \<longrightarrow>
      middlestFrameSliceIndex slices = middleFrameSliceIndex (int (length slices))) \<and>
   (length slices \<le> 61 \<longrightarrow> (\<forall>j<length slices. distanceToMiddle slices j < 31))"
  using middlestFrameSliceIndex_found [of slices] middlestFrameSliceIndex_fallback [of slices]
    distanceToMiddle_small [of slices]
  by blast

theorem middlestFrameSliceIndex_closest_witness:
  "qualifies columnSlices 1 \<and> middlestFrameSliceIndex columnSlices = 1 \<and>
   \<not> qualifies pairSlices 0 \<and> \<not> qualifies pairSlices 1 \<and> \<not> qualifies pairSlices 2 \<and>
   middlestFrameSliceIndex pairSlices = 1 \<and> distanceToMiddle columnSlices 2 < 31"
proof -
  have q: "qualifies columnSlices 1" and d: "distanceToMiddle columnSlices 1 = 0"
    and d': "\<And>j. distanceToMiddle columnSlices j = 0 \<Longrightarrow> j = 1"
    by (auto simp: qualifies_def hasThreePanels_def distanceToMiddle_def columnSlices_def
        middleFrameSliceIndex_cdiv cdiv_def plugin_consts)
  from middlestFrameSliceIndex_closest [of columnSlices] q
  obtain k where k: "middlestFrameSliceIndex columnSlices = int k" "qualifies columnSlices k"
    "distanceToMiddle columnSlices k \<le> distanceToMiddle columnSlices 1"
    by blast
  have "0 \<le> distanceToMiddle columnSlices k" by (simp add: distanceToMiddle_def)
  with k(3) d have "k = 1" by (intro d') simp
  have nq: "\<not> qualifies pairSlices j" for j
    by (cases j; cases "j - 1"; cases "j - 2")
      (auto simp: qualifies_def hasThreePanels_def pairSlices_def plugin_consts)
  with middlestFrameSliceIndex_closest [of pairSlices]
  have "middlestFrameSliceIndex pairSlices = middleFrameSliceIndex (int (length pairSlices))"
    by blast
  then have "middlestFrameSliceIndex pairSlices = 1"
    by (simp add: pairSlices_def middleFrameSliceIndex_cdiv cdiv_def)
  moreover from middlestFrameSliceIndex_closest [of columnSlices]
  have "distanceToMiddle columnSlices 2 < 31"
    by (simp add: columnSlices_def)
  ultimately show ?thesis
    using q k(1) \<open>k = 1\<close> nq by simp
qed

section \<open>Sorting and binding\<close>

lemma findPanelYs_centroidOf:
  "p \<noteq> q \<Longrightarrow>
   findPanelYs layoutData p q (y1, y2) =
     (case centroidOf layoutData p of None \<Rightarrow> y1 | Some y \<Rightarrow> Some y,
      case centroidOf layoutData q of None \<Rightarrow> y2 | Some y \<Rightarrow> Some y)"
  by (induction layoutData arbitrary: y1 y2) (auto split: option.splits)

lemma comparePanelIds_known:
  assumes "p \<noteq> q" "centroidOf layoutData p = Some y" "centroidOf layoutData q = Some y'"
  shows "comparePanelIds layoutData p q = Inr (y > y')"
  using assms by (simp add: comparePanelIds_def findPanelYs_centroidOf)

lemma insertBy_sorted:
  assumes cmp: "\<And>p q. p \<in> S \<Longrightarrow> q \<in> S \<Longrightarrow> p \<noteq> q \<Longrightarrow> cmp p q = Inr (key p > key q)"
    and "x \<in> S" "set ys \<subseteq> S" "x \<notin> set ys" "sorted_wrt (\<lambda>p q. key p \<ge> key q) ys"
  shows "\<exists>zs. insertBy cmp x ys = Inr zs \<and> mset zs = mset (x # ys) \<and>
           sorted_wrt (\<lambda>p q. (key p :: real) \<ge> key q) zs"
  using assms(2-)
proof (induction ys)
  case Nil
  then show ?case by simp
next
  case (Cons y ys)
  then have c: "cmp x y = Inr (key x > key y)"
    by (intro cmp) auto
  show ?case
  proof (cases "key x > key y")
    case True
    with c Cons.prems show ?thesis by fastforce
  next
    case False
    from Cons obtain zs where zs: "insertBy cmp x ys = Inr zs" "mset zs = mset (x # ys)"
      "sorted_wrt (\<lambda>p q. key p \<ge> key q) zs"
      by auto
    from zs(2) have "set zs = insert x (set ys)"
      by (metis mset_eq_setD list.simps(15))
    with False c zs Cons.prems show ?thesis by auto
  qed
qed

lemma sortBy_sorted:
  assumes cmp: "\<And>p q. p \<in> S \<Longrightarrow> q \<in> S \<Longrightarrow> p \<noteq> q \<Longrightarrow> cmp p q = Inr (key p > key q)"
    and "set xs \<subseteq> S" "distinct xs"
  shows "\<exists>zs. sortBy cmp xs = Inr zs \<and> mset zs = mset xs \<and>
           sorted_wrt (\<lambda>p q. (key p :: real) \<ge> key q) zs"
  using assms(2-)
proof (induction xs)
  case Nil
  then show ?case by simp
next
  case (Cons x xs)
  then obtain ys where ys: "sortBy cmp xs = Inr ys" "mset ys = mset xs"
    "sorted_wrt (\<lambda>p q. key p \<ge> key q) ys"
    by auto
  from ys(2) have s: "set ys = set xs" by (rule mset_eq_setD)
  with Cons.prems ys(3) have "\<exists>zs. insertBy cmp x ys = Inr zs \<and> mset zs = mset (x # ys) \<and>
           sorted_wrt (\<lambda>p q. key p \<ge> key q) zs"
    by (intro insertBy_sorted [where S = S] cmp) auto
  with ys show ?case by auto
qed

lemma sort_middlestPanelIds:
  assumes "distinct xs" "\<forall>pid \<in> set xs. centroidOf layoutData pid \<noteq> None"
  shows "\<exists>zs. sortBy (comparePanelIds layoutData) xs = Inr zs \<and> mset zs = mset xs \<and>
           sorted_wrt (notBelow layoutData) zs"
proof -
  let ?key = "\<lambda>p. the (centroidOf layoutData p)"
  have "\<exists>zs. sortBy (comparePanelIds layoutData) xs = Inr zs \<and> mset zs = mset xs \<and>
           sorted_wrt (\<lambda>p q. ?key p \<ge> ?key q) zs"
  proof (rule sortBy_sorted [where S = "set xs"])
    fix p q assume "p \<in> set xs" "q \<in> set xs" "p \<noteq> q"
    with assms(2) show "comparePanelIds layoutData p q = Inr (?key p > ?key q)"
      by (auto simp: comparePanelIds_known)
  qed (use assms in auto)
  then obtain zs where zs: "sortBy (comparePanelIds layoutData) xs = Inr zs" "mset zs = mset xs"
    "sorted_wrt (\<lambda>p q. ?key p \<ge> ?key q) zs"
    by blast
  from zs(2) have "set zs = set xs" by (rule mset_eq_setD)
  with assms(2) have known: "\<forall>pid \<in> set zs. centroidOf layoutData pid \<noteq> None" by simp
  have "notBelow layoutData p q"
    if "p \<in> set zs" "q \<in> set zs" "?key p \<ge> ?key q" for p q
  proof -
    from that known obtain y y' where "centroidOf layoutData p = Some y"
      "centroidOf layoutData q = Some y'"
      by blast
    with that(3) show ?thesis by (simp add: notBelow_def)
  qed
  with zs(3) have "sorted_wrt (notBelow layoutData) zs"
    by (elim sorted_wrt_mono_rel [rotated]) simp
  with zs show ?thesis by blast
qed

lemma middlestFrameSliceIndex_range:
  assumes "slices \<noteq> []"
  shows "0 \<le> middlestFrameSliceIndex slices \<and> middlestFrameSliceIndex slices < int (length slices)"
proof (cases "\<exists>j. qualifies slices j")
  case True
  then obtain k where "middlestFrameSliceIndex slices = int k" "qualifies slices k"
    using middlestFrameSliceIndex_found by blast
  then show ?thesis by (simp add: qualifies_def)
next
  case False
  then have "middlestFrameSliceIndex slices = middleFrameSliceIndex (int (length slices))"
    by (intro middlestFrameSliceIndex_fallback) simp
  moreover from assms have "1 \<le> int (length slices)"
    by (cases slices) simp_all
  ultimately show ?thesis
    using middleFrameSliceIndex_floor [of "int (length slices)"] by linarith
qed

lemma elemAt_middlest:
  assumes "slices \<noteq> []"
  shows "elemAt slices (middlestFrameSliceIndex slices) = Inr (middlestFrameSlice slices)"
    and "middlestFrameSlice slices \<in> set slices"
  using middlestFrameSliceIndex_range [OF assms]
  by (simp_all add: elemAt_def middlestFrameSlice_def nat_less_iff)

lemma bindColorPanelIds_cases:
  assumes "zs \<noteq> []"
  shows "\<exists>ids. bindColorPanelIds zs [0, 0, 0] = Inr ids \<and>
           (3 \<le> length zs \<longrightarrow> ids = [zs ! 0, zs ! 1, zs ! 2]) \<and>
           (length zs = 2 \<longrightarrow> ids = [zs ! 0, IGNORED_PANEL_ID, zs ! 1]) \<and>
           (length zs = 1 \<longrightarrow> ids = [zs ! 0, zs ! 0, zs ! 0])"
  using assms by (cases zs) (auto simp: bindColorPanelIds_def elemAt_def)

lemma initPlugin_selection:
  assumes "wellFormed layoutData slices"
  shows "\<exists>p zs. initPlugin layoutData paletteColors slices transTimeOption = Inr p \<and>
           mset zs = mset (panelIds (middlestFrameSlice slices)) \<and>
           sorted_wrt (notBelow layoutData) zs \<and>
           frameSlices p = slices \<and>
           transitionTime p = (case transTimeOption of None \<Rightarrow> 50 | Some t \<Rightarrow> t) \<and>
           colors p = initColors paletteColors \<and>
           currentColorIndex p = RED \<and>
           (3 \<le> length zs \<longrightarrow> colorPanelIds p = [zs ! 0, zs ! 1, zs ! 2]) \<and>
           (length zs = 2 \<longrightarrow> colorPanelIds p = [zs ! 0, IGNORED_PANEL_ID, zs ! 1]) \<and>
           (length zs = 1 \<longrightarrow> colorPanelIds p = [zs ! 0, zs ! 0, zs ! 0])"
proof -
  from assms have ne: "slices \<noteq> []" by (simp add: wellFormed_def)
  let ?chosen = "middlestFrameSlice slices"
  from elemAt_middlest [OF ne] assms
  have at: "elemAt slices (middlestFrameSliceIndex slices) = Inr ?chosen"
    and c: "panelIds ?chosen \<noteq> []" "distinct (panelIds ?chosen)"
      "\<forall>pid \<in> set (panelIds ?chosen). centroidOf layoutData pid \<noteq> None"
    by (auto simp: wellFormed_def)
  from sort_middlestPanelIds [OF c(2,3)] obtain zs
    where zs: "sortBy (comparePanelIds layoutData) (panelIds ?chosen) = Inr zs"
      "mset zs = mset (panelIds ?chosen)" "sorted_wrt (notBelow layoutData) zs"
    by blast
  from zs(2) c(1) have "zs \<noteq> []" by auto
  from bindColorPanelIds_cases [OF this] obtain ids
    where ids: "bindColorPanelIds zs [0, 0, 0] = Inr ids"
      "3 \<le> length zs \<longrightarrow> ids = [zs ! 0, zs ! 1, zs ! 2]"
      "length zs = 2 \<longrightarrow> ids = [zs ! 0, IGNORED_PANEL_ID, zs ! 1]"
      "length zs = 1 \<longrightarrow> ids = [zs ! 0, zs ! 0, zs ! 0]"
    by blast
  let ?p = "\<lparr>frameSlices = slices,
      transitionTime = (case transTimeOption of None \<Rightarrow> 50 | Some t \<Rightarrow> t),
      colors = initColors paletteColors, colorPanelIds = ids, currentColorIndex = RED\<rparr>"
  from at zs(1) ids(1)
  have "initPlugin layoutData paletteColors slices transTimeOption = Inr ?p"
    by (simp add: initPlugin_def)
  with zs(2,3) ids(2-) show ?thesis
    by (intro exI [of _ ?p] exI [of _ zs]) simp
qed

lemma sampleLayout_centroids:
  "centroidOf sampleLayout 10 = Some 0" "centroidOf sampleLayout 20 = Some 1"
  "centroidOf sampleLayout 30 = Some 2" "centroidOf sampleLayout 40 = Some 3"
  "centroidOf sampleLayout 50 = Some 4"
  by (simp_all add: sampleLayout_def)

lemma columnSlices_selection:
  "initPlugin sampleLayout [] columnSlices None =
     Inr \<lparr>frameSlices = columnSlices, transitionTime = 50, colors = defaultColors,
          colorPanelIds = [40, 30, 20], currentColorIndex = 0\<rparr>"
  by (simp add: initPlugin_def columnSlices_def sampleLayout_def middlestFrameSliceIndex_def
      middleFrameSliceIndex_cdiv cdiv_def elemAt_def comparePanelIds_def
      bindColorPanelIds_def initColors_def plugin_consts)

lemma pairSlices_selection:
  "initPlugin sampleLayout [] pairSlices None =
     Inr \<lparr>frameSlices = pairSlices, transitionTime = 50, colors = defaultColors,
          colorPanelIds = [30, - 1, 20], currentColorIndex = 0\<rparr>"
  by (simp add: initPlugin_def pairSlices_def sampleLayout_def middlestFrameSliceIndex_def
      middleFrameSliceIndex_cdiv cdiv_def elemAt_def comparePanelIds_def
      bindColorPanelIds_def initColors_def plugin_consts)

lemma singleSlices_selection:
  "initPlugin sampleLayout [] singleSlices None =
     Inr \<lparr>frameSlices = singleSlices, transitionTime = 50, colors = defaultColors,
          colorPanelIds = [30, 30, 30], currentColorIndex = 0\<rparr>"
  by (simp add: initPlugin_def singleSlices_def sampleLayout_def middlestFrameSliceIndex_def
      middleFrameSliceIndex_cdiv cdiv_def elemAt_def comparePanelIds_def
      bindColorPanelIds_def initColors_def plugin_consts)

lemma wellFormed_samples:
  "wellFormed sampleLayout columnSlices" "wellFormed sampleLayout pairSlices"
  "wellFormed sampleLayout singleSlices" "wellFormed sampleLayout leftPairSlices"
  by (simp_all add: wellFormed_def columnSlices_def pairSlices_def singleSlices_def
      leftPairSlices_def sampleLayout_centroids)

text \<open>
  C1. Under the host's guarantees the Selector returns, and for the chosen slice there is a
  list \<open>zs\<close>, its panel identifiers rearranged top to bottom (centroid vertical coordinate
  descending), such that the slots RED, YELLOW, GREEN (positions 0, 1, 2 of
  \<open>colorPanelIds\<close>) are bound to \<open>zs ! 0\<close>, \<open>zs ! 1\<close>, \<open>zs ! 2\<close> when \<open>zs\<close> has three
  elements or more; to \<open>zs ! 0\<close>, the ignored sentinel, \<open>zs ! 1\<close> when it has two; and all
  to \<open>zs ! 0\<close> when it has one.
\<close>

theorem initPlugin_binds_sorted_slice:
  assumes "wellFormed layoutData slices"
  shows "\<exists>p zs. initPlugin layoutData paletteColors slices transTimeOption = Inr p \<and>
           mset zs = mset (panelIds (middlestFrameSlice slices)) \<and>
           sorted_wrt (notBelow layoutData) zs \<and>
           (3 \<le> length zs \<longrightarrow> colorPanelIds p = [zs ! 0, zs ! 1, zs ! 2]) \<and>
           (length zs = 2 \<longrightarrow> colorPanelIds p = [zs ! 0, IGNORED_PANEL_ID, zs ! 1]) \<and>
           (length zs = 1 \<longrightarrow> colorPanelIds p = [zs ! 0, zs ! 0, zs ! 0])"
  using initPlugin_selection [OF assms, of paletteColors transTimeOption] by blast

theorem initPlugin_binds_sorted_slice_witness:
  "wellFormed sampleLayout columnSlices \<and>
   (\<exists>p. initPlugin sampleLayout [] columnSlices None = Inr p \<and> colorPanelIds p = [40, 30, 20])"
proof -
  have wf: "wellFormed sampleLayout columnSlices"
    by (rule wellFormed_samples)
  from initPlugin_binds_sorted_slice [OF wf, of "[]" None]
  obtain p where "initPlugin sampleLayout [] columnSlices None = Inr p"
    by blast
  with wf show ?thesis
    by (auto simp: columnSlices_selection)
qed

lemma no_three_panels_fallback:
  assumes "\<forall>frameSlice \<in> set slices. length (panelIds frameSlice) \<le> 2"
  shows "middlestFrameSliceIndex slices = middleFrameSliceIndex (int (length slices))"
proof (rule middlestFrameSliceIndex_fallback)
  fix j
  show "\<not> qualifies slices j"
  proof
    assume "qualifies slices j"
    then have "j < length slices" "3 \<le> length (panelIds (slices ! j))"
      by (simp_all add: qualifies_def hasThreePanels_def plugin_consts)
    moreover from this(1) have "slices ! j \<in> set slices" by simp
    with assms have "length (panelIds (slices ! j)) \<le> 2" by blast
    ultimately show False by simp
  qed
qed

text \<open>
  C8, as stated. The claim: whenever the richest slice has exactly two panels, RED and GREEN
  are bound to those two and YELLOW to the ignored sentinel. In \<open>leftPairSlices\<close> the
  richest slice is the pair at index 0, but with no slice of three panels the Selector
  falls back to the slice at the middle index, 1, which holds the single panel 30: all
  three slots are bound to it.
\<close>

theorem leftPairSlices_binds_single_panel:
  "length (panelIds (leftPairSlices ! 0)) = 2 \<and>
   length (panelIds (leftPairSlices ! 1)) = 1 \<and>
   length (panelIds (leftPairSlices ! 2)) = 1 \<and>
   initPlugin sampleLayout [] leftPairSlices None =
     Inr \<lparr>frameSlices = leftPairSlices, transitionTime = 50, colors = defaultColors,
          colorPanelIds = [30, 30, 30], currentColorIndex = 0\<rparr>"
  by (simp add: initPlugin_def leftPairSlices_def sampleLayout_def middlestFrameSliceIndex_def
      middleFrameSliceIndex_cdiv cdiv_def elemAt_def comparePanelIds_def
      bindColorPanelIds_def initColors_def plugin_consts)

text \<open>
  C8, amended. When no slice has three panels or more and the slice at the middle index
  has exactly two, RED is bound to the upper and GREEN to the lower of those two, and
  YELLOW to the ignored sentinel.
\<close>

theorem initPlugin_pair_in_the_middle:
  assumes "wellFormed layoutData slices"
    and "\<forall>frameSlice \<in> set slices. length (panelIds frameSlice) \<le> 2"
    and "length (panelIds (slices ! nat (middleFrameSliceIndex (int (length slices))))) = 2"
  shows "\<exists>p upper lower.
           initPlugin layoutData paletteColors slices transTimeOption = Inr p \<and>
           colorPanelIds p = [upper, IGNORED_PANEL_ID, lower] \<and>
           set (panelIds (slices ! nat (middleFrameSliceIndex (int (length slices))))) =
             {upper, lower} \<and>
           upper \<noteq> lower \<and> notBelow layoutData upper lower"
proof -
  let ?chosen = "slices ! nat (middleFrameSliceIndex (int (length slices)))"
  from assms(2) have m: "middlestFrameSlice slices = ?chosen"
    by (simp add: middlestFrameSlice_def no_three_panels_fallback)
  from initPlugin_selection [OF assms(1), of paletteColors transTimeOption] m
  obtain p zs where p: "initPlugin layoutData paletteColors slices transTimeOption = Inr p"
    and zs: "mset zs = mset (panelIds ?chosen)" "sorted_wrt (notBelow layoutData) zs"
    and two: "length zs = 2 \<longrightarrow> colorPanelIds p = [zs ! 0, IGNORED_PANEL_ID, zs ! 1]"
    by auto
  from zs(1) have len: "length zs = length (panelIds ?chosen)"
    by (rule mset_eq_length)
  with assms(3) obtain upper lower where ul: "zs = [upper, lower]"
    by (cases zs; cases "tl zs"; cases "tl (tl zs)") auto
  from assms(1) have "slices \<noteq> []" by (simp add: wellFormed_def)
  from elemAt_middlest(2) [OF this] m assms(1) have "distinct (panelIds ?chosen)"
    by (simp add: wellFormed_def)
  with zs(1) have "distinct zs"
    by (metis mset_eq_imp_distinct_iff)
  moreover from zs(1) have "set zs = set (panelIds ?chosen)"
    by (rule mset_eq_setD)
  ultimately have "colorPanelIds p = [upper, IGNORED_PANEL_ID, lower]"
    "set (panelIds ?chosen) = {upper, lower}" "upper \<noteq> lower" "notBelow layoutData upper lower"
    using zs(2) two ul by auto
  with p show ?thesis by blast
qed

theorem initPlugin_pair_in_the_middle_witness:
  "wellFormed sampleLayout pairSlices \<and>
   initPlugin sampleLayout [] pairSlices None =
     Inr \<lparr>frameSlices = pairSlices, transitionTime = 50, colors = defaultColors,
          colorPanelIds = [30, IGNORED_PANEL_ID, 20], currentColorIndex = 0\<rparr> \<and>
   notBelow sampleLayout 30 20"
proof -
  have wf: "wellFormed sampleLayout pairSlices"
    by (rule wellFormed_samples)
  have small: "\<forall>frameSlice \<in> set pairSlices. length (panelIds frameSlice) \<le> 2"
    by (simp add: pairSlices_def)
  have mid: "length (panelIds (pairSlices ! nat (middleFrameSliceIndex (int (length pairSlices))))) = 2"
    by (simp add: pairSlices_def middleFrameSliceIndex_cdiv cdiv_def)
  from initPlugin_pair_in_the_middle [OF wf small mid, of "[]" None]
  obtain p upper lower where "initPlugin sampleLayout [] pairSlices None = Inr p"
    "colorPanelIds p = [upper, IGNORED_PANEL_ID, lower]" "notBelow sampleLayout upper lower"
    by blast
  with wf show ?thesis
    by (auto simp: pairSlices_selection plugin_consts)
qed

lemma initPlugin_slots:
  assumes "wellFormed layoutData slices"
  shows "\<exists>p. initPlugin layoutData paletteColors slices transTimeOption = Inr p \<and>
           frameSlices p = slices \<and>
           transitionTime p = (case transTimeOption of None \<Rightarrow> 50 | Some t \<Rightarrow> t) \<and>
           colors p = initColors paletteColors \<and>
           currentColorIndex p = RED \<and>
           length (colorPanelIds p) = 3 \<and>
           colorPanelIds p ! 0 \<in> set (panelIds (middlestFrameSlice slices)) \<and>
           colorPanelIds p ! 2 \<in> set (panelIds (middlestFrameSlice slices)) \<and>
           (colorPanelIds p ! 1 = IGNORED_PANEL_ID \<or>
            colorPanelIds p ! 1 \<in> set (panelIds (middlestFrameSlice slices)))"
proof -
  from initPlugin_selection [OF assms, of paletteColors transTimeOption]
  obtain p zs where p: "initPlugin layoutData paletteColors slices transTimeOption = Inr p"
      "frameSlices p = slices"
      "transitionTime p = (case transTimeOption of None \<Rightarrow> 50 | Some t \<Rightarrow> t)"
      "colors p = initColors paletteColors" "currentColorIndex p = RED"
    and zs: "mset zs = mset (panelIds (middlestFrameSlice slices))"
    and bound: "3 \<le> length zs \<longrightarrow> colorPanelIds p = [zs ! 0, zs ! 1, zs ! 2]"
      "length zs = 2 \<longrightarrow> colorPanelIds p = [zs ! 0, IGNORED_PANEL_ID, zs ! 1]"
      "length zs = 1 \<longrightarrow> colorPanelIds p = [zs ! 0, zs ! 0, zs ! 0]"
    by blast
  from assms have "slices \<noteq> []" by (simp add: wellFormed_def)
  from elemAt_middlest(2) [OF this] assms have "panelIds (middlestFrameSlice slices) \<noteq> []"
    by (simp add: wellFormed_def)
  with zs have ne: "zs \<noteq> []" by auto
  from zs have s: "set (panelIds (middlestFrameSlice slices)) = set zs"
    by (metis mset_eq_setD)
  from ne have "length zs \<noteq> 0" by simp
  then consider "3 \<le> length zs" | "length zs = 2" | "length zs = 1"
    by arith
  then have "length (colorPanelIds p) = 3 \<and> colorPanelIds p ! 0 \<in> set zs \<and>
      colorPanelIds p ! 2 \<in> set zs \<and>
      (colorPanelIds p ! 1 = IGNORED_PANEL_ID \<or> colorPanelIds p ! 1 \<in> set zs)"
    using bound by cases (auto intro: nth_mem)
  with p s show ?thesis by simp
qed

text \<open>
  C10, as stated. The claim: after every run of the Selector RED and GREEN hold real panel
  identifiers and only YELLOW can hold the ignored sentinel \<open>-1\<close>. Panel identifiers are
  any integers: in \<open>minusOneSlices\<close> the middle slice holds panel 7 above a panel whose
  identifier is \<open>-1\<close>, and the Selector binds GREEN to it, so GREEN holds the value of the
  sentinel.
\<close>

theorem minusOneSlices_green_is_sentinel:
  "wellFormed minusOneLayout minusOneSlices \<and>
   initPlugin minusOneLayout [] minusOneSlices None =
     Inr \<lparr>frameSlices = minusOneSlices, transitionTime = 50, colors = defaultColors,
          colorPanelIds = [7, - 1, - 1], currentColorIndex = 0\<rparr> \<and>
   [7, - 1, - 1] ! nat GREEN = IGNORED_PANEL_ID"
proof -
  have "centroidOf minusOneLayout 5 = Some 0" "centroidOf minusOneLayout 7 = Some 2"
    "centroidOf minusOneLayout (- 1) = Some 1" "centroidOf minusOneLayout 9 = Some 0"
    by (simp_all add: minusOneLayout_def)
  then have "wellFormed minusOneLayout minusOneSlices"
    by (simp add: wellFormed_def minusOneSlices_def)
  moreover have "initPlugin minusOneLayout [] minusOneSlices None =
     Inr \<lparr>frameSlices = minusOneSlices, transitionTime = 50, colors = defaultColors,
          colorPanelIds = [7, - 1, - 1], currentColorIndex = 0\<rparr>"
    by (simp add: initPlugin_def minusOneSlices_def minusOneLayout_def
        middlestFrameSliceIndex_def middleFrameSliceIndex_cdiv cdiv_def elemAt_def
        comparePanelIds_def bindColorPanelIds_def initColors_def plugin_consts)
  ultimately show ?thesis
    by (simp add: plugin_consts)
qed

text \<open>
  C10, amended. On a layout that meets the host's guarantees the Selector returns with RED
  and GREEN bound to identifiers of panels of the chosen slice; and when no panel of that
  slice carries the identifier \<open>-1\<close> (so whenever no panel at all does), neither RED nor
  GREEN holds the ignored sentinel: it can only stand in the YELLOW slot, the one
  comparison \<open>getPluginFrame\<close> guards.
\<close>

theorem initPlugin_red_green_real:
  assumes "wellFormed layoutData slices"
  shows "\<exists>p. initPlugin layoutData paletteColors slices transTimeOption = Inr p \<and>
           colorPanelIds p ! nat RED \<in> set (panelIds (middlestFrameSlice slices)) \<and>
           colorPanelIds p ! nat GREEN \<in> set (panelIds (middlestFrameSlice slices)) \<and>
           (IGNORED_PANEL_ID \<notin> set (panelIds (middlestFrameSlice slices)) \<longrightarrow>
              colorPanelIds p ! nat RED \<noteq> IGNORED_PANEL_ID \<and>
              colorPanelIds p ! nat GREEN \<noteq> IGNORED_PANEL_ID) \<and>
           (realPanels slices \<longrightarrow>
              IGNORED_PANEL_ID \<notin> set (panelIds (middlestFrameSlice slices)))"
proof -
  from assms have "slices \<noteq> []" by (simp add: wellFormed_def)
  from elemAt_middlest(2) [OF this]
  have "realPanels slices \<longrightarrow> IGNORED_PANEL_ID \<notin> set (panelIds (middlestFrameSlice slices))"
    by (simp add: realPanels_def)
  with initPlugin_slots [OF assms, of paletteColors transTimeOption] show ?thesis
    by (auto simp: RED_def GREEN_def)
qed

theorem initPlugin_red_green_real_witness:
  "wellFormed sampleLayout pairSlices \<and>
   IGNORED_PANEL_ID \<notin> set (panelIds (middlestFrameSlice pairSlices)) \<and>
   (\<exists>p. initPlugin sampleLayout [] pairSlices None = Inr p \<and>
      colorPanelIds p ! nat RED = 30 \<and> colorPanelIds p ! nat YELLOW = IGNORED_PANEL_ID \<and>
      colorPanelIds p ! nat GREEN = 20)"
proof -
  have wf: "wellFormed sampleLayout pairSlices"
    by (rule wellFormed_samples)
  have rp: "realPanels pairSlices"
    by (simp add: realPanels_def pairSlices_def plugin_consts)
  from initPlugin_red_green_real [OF wf, of "[]" None] rp
  obtain p where "initPlugin sampleLayout [] pairSlices None = Inr p"
    and "IGNORED_PANEL_ID \<notin> set (panelIds (middlestFrameSlice pairSlices))"
    by blast
  with wf show ?thesis
    by (auto simp: pairSlices_selection plugin_consts)
qed

section \<open>The first loop of the Driver\<close>

lemma tracked_Nil: "tracked target [] start before before"
  by (simp add: tracked_def)

lemma tracked_Cons:
  assumes "tracked target pids (start + 1) (if pid = target then start else before) recorded"
  shows "tracked target (pid # pids) start before recorded"
  using assms unfolding tracked_def
proof (elim disjE conjE exE)
  assume "target \<notin> set pids" "recorded = (if pid = target then start else before)"
  then show "(target \<notin> set (pid # pids) \<and> recorded = before) \<or>
      (\<exists>k<length (pid # pids). (pid # pids) ! k = target \<and> recorded = start + int k)"
    by (cases "pid = target") (auto intro: exI [of _ 0])
next
  fix k assume "k < length pids" "pids ! k = target" "recorded = start + 1 + int k"
  then show "(target \<notin> set (pid # pids) \<and> recorded = before) \<or>
      (\<exists>k<length (pid # pids). (pid # pids) ! k = target \<and> recorded = start + int k)"
    by (intro disjI2 exI [of _ "Suc k"]) simp
qed

lemma tracked_append:
  assumes "tracked target xs start before mid" "tracked target ys (start + int (length xs)) mid recorded"
  shows "tracked target (xs @ ys) start before recorded"
  using assms unfolding tracked_def
proof (elim disjE conjE exE)
  fix k assume "k < length ys" "ys ! k = target" "recorded = start + int (length xs) + int k"
  then show "(target \<notin> set (xs @ ys) \<and> recorded = before) \<or>
      (\<exists>k<length (xs @ ys). (xs @ ys) ! k = target \<and> recorded = start + int k)"
    by (intro disjI2 exI [of _ "length xs + k"]) (simp add: nth_append)
next
  fix k assume "k < length xs" "xs ! k = target" "mid = start + int k" "target \<notin> set ys" "recorded = mid"
  then show "(target \<notin> set (xs @ ys) \<and> recorded = before) \<or>
      (\<exists>k<length (xs @ ys). (xs @ ys) ! k = target \<and> recorded = start + int k)"
    by (intro disjI2 exI [of _ k]) (simp add: nth_append)
next
  fix k k' assume "k < length ys" "ys ! k = target" "recorded = start + int (length xs) + int k"
  then show "(target \<notin> set (xs @ ys) \<and> recorded = before) \<or>
      (\<exists>k<length (xs @ ys). (xs @ ys) ! k = target \<and> recorded = start + int k)"
    by (intro disjI2 exI [of _ "length xs + k"]) (simp add: nth_append)
qed auto

lemma reset_frame:
  "(f :: Frame_t)\<lparr>panelId := pid, r := 0, g := 0, b := 0, transTime := 1\<rparr> = blackFrame pid"
  by (cases f) (simp add: blackFrame_def)

lemma resetPanel_step:
  assumes "ids = [redId, yellowId, greenId]" "0 \<le> index w" "nat (index w) < length (frames w)"
  shows "resetPanel ids pid w =
      Inr \<lparr>frames = (frames w)[nat (index w) := blackFrame pid],
           index = index w + 1,
           redPanelAbsoluteFrameIndex =
             (if pid = redId then index w else redPanelAbsoluteFrameIndex w),
           yellowPanelAbsoluteFrameIndex =
             (if pid = yellowId \<and> yellowId \<noteq> IGNORED_PANEL_ID then index w
              else yellowPanelAbsoluteFrameIndex w),
           greenPanelAbsoluteFrameIndex =
             (if pid = greenId then index w else greenPanelAbsoluteFrameIndex w)\<rparr>"
  using assms
  by (simp add: resetPanel_def writeFrame_def bindE_def elemAt_def reset_frame plugin_consts
      nat_less_iff)

lemma resetPanels_walk:
  assumes "ids = [redId, yellowId, greenId]" "0 \<le> index w"
    "nat (index w) + length pids \<le> length (frames w)"
  shows "\<exists>w'. resetPanels ids pids w = Inr w' \<and>
     frames w' = take (nat (index w)) (frames w) @ map blackFrame pids @
                   drop (nat (index w) + length pids) (frames w) \<and>
     index w' = index w + int (length pids) \<and>
     tracked redId pids (index w) (redPanelAbsoluteFrameIndex w) (redPanelAbsoluteFrameIndex w') \<and>
     (if yellowId = IGNORED_PANEL_ID
      then yellowPanelAbsoluteFrameIndex w' = yellowPanelAbsoluteFrameIndex w
      else tracked yellowId pids (index w) (yellowPanelAbsoluteFrameIndex w)
             (yellowPanelAbsoluteFrameIndex w')) \<and>
     tracked greenId pids (index w) (greenPanelAbsoluteFrameIndex w)
       (greenPanelAbsoluteFrameIndex w')"
  using assms(2,3)
proof (induction pids arbitrary: w)
  case Nil
  then show ?case by (simp add: tracked_Nil)
next
  case (Cons pid pids)
  let ?w1 = "\<lparr>frames = (frames w)[nat (index w) := blackFrame pid],
           index = index w + 1,
           redPanelAbsoluteFrameIndex =
             (if pid = redId then index w else redPanelAbsoluteFrameIndex w),
           yellowPanelAbsoluteFrameIndex =
             (if pid = yellowId \<and> yellowId \<noteq> IGNORED_PANEL_ID then index w
              else yellowPanelAbsoluteFrameIndex w),
           greenPanelAbsoluteFrameIndex =
             (if pid = greenId then index w else greenPanelAbsoluteFrameIndex w)\<rparr>"
  from Cons.prems have step: "resetPanel ids pid w = Inr ?w1"
    by (intro resetPanel_step assms(1)) simp_all
  from Cons.prems have n: "nat (index w + 1) = Suc (nat (index w))" by simp
  from Cons.prems have "0 \<le> index ?w1" "nat (index ?w1) + length pids \<le> length (frames ?w1)"
    by simp_all
  from Cons.IH [OF this] obtain w' where w': "resetPanels ids pids ?w1 = Inr w'"
    "frames w' = take (nat (index ?w1)) (frames ?w1) @ map blackFrame pids @
                   drop (nat (index ?w1) + length pids) (frames ?w1)"
    "index w' = index ?w1 + int (length pids)"
    "tracked redId pids (index ?w1) (redPanelAbsoluteFrameIndex ?w1) (redPanelAbsoluteFrameIndex w')"
    "if yellowId = IGNORED_PANEL_ID
      then yellowPanelAbsoluteFrameIndex w' = yellowPanelAbsoluteFrameIndex ?w1
      else tracked yellowId pids (index ?w1) (yellowPanelAbsoluteFrameIndex ?w1)
             (yellowPanelAbsoluteFrameIndex w')"
    "tracked greenId pids (index ?w1) (greenPanelAbsoluteFrameIndex ?w1)
       (greenPanelAbsoluteFrameIndex w')"
    by blast
  have f: "frames w' = take (nat (index w)) (frames w) @ map blackFrame (pid # pids) @
                   drop (nat (index w) + length (pid # pids)) (frames w)"
    using w'(2) Cons.prems by (simp add: n take_Suc_conv_app_nth)
  have "resetPanels ids (pid # pids) w = Inr w'"
    using step w'(1) by (simp add: bindE_def)
  moreover have "index w' = index w + int (length (pid # pids))"
    using w'(3) by simp
  moreover have "tracked redId (pid # pids) (index w) (redPanelAbsoluteFrameIndex w)
      (redPanelAbsoluteFrameIndex w')"
    using w'(4) by (intro tracked_Cons) simp
  moreover have "tracked greenId (pid # pids) (index w) (greenPanelAbsoluteFrameIndex w)
      (greenPanelAbsoluteFrameIndex w')"
    using w'(6) by (intro tracked_Cons) simp
  moreover have "if yellowId = IGNORED_PANEL_ID
      then yellowPanelAbsoluteFrameIndex w' = yellowPanelAbsoluteFrameIndex w
      else tracked yellowId (pid # pids) (index w) (yellowPanelAbsoluteFrameIndex w)
             (yellowPanelAbsoluteFrameIndex w')"
    using w'(5) by (auto intro!: tracked_Cons)
  ultimately show ?case using f by blast
qed

lemma resetSlices_walk:
  assumes "ids = [redId, yellowId, greenId]" "0 \<le> index w"
    "nat (index w) + length (allPanelIds slices) \<le> length (frames w)"
  shows "\<exists>w'. resetSlices ids slices w = Inr w' \<and>
     frames w' = take (nat (index w)) (frames w) @ map blackFrame (allPanelIds slices) @
                   drop (nat (index w) + length (allPanelIds slices)) (frames w) \<and>
     index w' = index w + int (length (allPanelIds slices)) \<and>
     tracked redId (allPanelIds slices) (index w) (redPanelAbsoluteFrameIndex w)
       (redPanelAbsoluteFrameIndex w') \<and>
     (if yellowId = IGNORED_PANEL_ID
      then yellowPanelAbsoluteFrameIndex w' = yellowPanelAbsoluteFrameIndex w
      else tracked yellowId (allPanelIds slices) (index w) (yellowPanelAbsoluteFrameIndex w)
             (yellowPanelAbsoluteFrameIndex w')) \<and>
     tracked greenId (allPanelIds slices) (index w) (greenPanelAbsoluteFrameIndex w)
       (greenPanelAbsoluteFrameIndex w')"
  using assms(2,3)
proof (induction slices arbitrary: w)
  case Nil
  then show ?case by (simp add: tracked_Nil allPanelIds_def)
next
  case (Cons s slices)
  have a: "allPanelIds (s # slices) = panelIds s @ allPanelIds slices"
    by (simp add: allPanelIds_def)
  from Cons.prems have "nat (index w) + length (panelIds s) \<le> length (frames w)"
    by (simp add: a)
  from resetPanels_walk [OF assms(1) Cons.prems(1) this] obtain w1
    where w1: "resetPanels ids (panelIds s) w = Inr w1"
    "frames w1 = take (nat (index w)) (frames w) @ map blackFrame (panelIds s) @
                   drop (nat (index w) + length (panelIds s)) (frames w)"
    "index w1 = index w + int (length (panelIds s))"
    "tracked redId (panelIds s) (index w) (redPanelAbsoluteFrameIndex w) (redPanelAbsoluteFrameIndex w1)"
    "if yellowId = IGNORED_PANEL_ID
      then yellowPanelAbsoluteFrameIndex w1 = yellowPanelAbsoluteFrameIndex w
      else tracked yellowId (panelIds s) (index w) (yellowPanelAbsoluteFrameIndex w)
             (yellowPanelAbsoluteFrameIndex w1)"
    "tracked greenId (panelIds s) (index w) (greenPanelAbsoluteFrameIndex w)
       (greenPanelAbsoluteFrameIndex w1)"
    by blast
  from Cons.prems w1(2,3) have len: "length (frames w1) = length (frames w)"
    and n1: "nat (index w1) = nat (index w) + length (panelIds s)"
    by (simp_all add: a nat_add_distrib)
  with Cons.prems w1(3) have "0 \<le> index w1" "nat (index w1) + length (allPanelIds slices) \<le> length (frames w1)"
    by (simp_all add: a)
  from Cons.IH [OF this] obtain w' where w': "resetSlices ids slices w1 = Inr w'"
    "frames w' = take (nat (index w1)) (frames w1) @ map blackFrame (allPanelIds slices) @
                   drop (nat (index w1) + length (allPanelIds slices)) (frames w1)"
    "index w' = index w1 + int (length (allPanelIds slices))"
    "tracked redId (allPanelIds slices) (index w1) (redPanelAbsoluteFrameIndex w1)
       (redPanelAbsoluteFrameIndex w')"
    "if yellowId = IGNORED_PANEL_ID
      then yellowPanelAbsoluteFrameIndex w' = yellowPanelAbsoluteFrameIndex w1
      else tracked yellowId (allPanelIds slices) (index w1) (yellowPanelAbsoluteFrameIndex w1)
             (yellowPanelAbsoluteFrameIndex w')"
    "tracked greenId (allPanelIds slices) (index w1) (greenPanelAbsoluteFrameIndex w1)
       (greenPanelAbsoluteFrameIndex w')"
    by blast
  have "resetSlices ids (s # slices) w = Inr w'"
    using w1(1) w'(1) by (simp add: bindE_def)
  moreover have "frames w' = take (nat (index w)) (frames w) @ map blackFrame (allPanelIds (s # slices)) @
                   drop (nat (index w) + length (allPanelIds (s # slices))) (frames w)"
    using w'(2) Cons.prems(2) unfolding n1 w1(2) a
    by (simp add: min_absorb2 ac_simps)
  moreover have "index w' = index w + int (length (allPanelIds (s # slices)))"
    using w'(3) w1(3) by (simp add: a)
  moreover have "tracked redId (allPanelIds (s # slices)) (index w) (redPanelAbsoluteFrameIndex w)
       (redPanelAbsoluteFrameIndex w')"
    unfolding a using w1(4) w'(4) unfolding w1(3) by (rule tracked_append)
  moreover have "tracked greenId (allPanelIds (s # slices)) (index w) (greenPanelAbsoluteFrameIndex w)
       (greenPanelAbsoluteFrameIndex w')"
    unfolding a using w1(6) w'(6) unfolding w1(3) by (rule tracked_append)
  moreover have "if yellowId = IGNORED_PANEL_ID
      then yellowPanelAbsoluteFrameIndex w' = yellowPanelAbsoluteFrameIndex w
      else tracked yellowId (allPanelIds (s # slices)) (index w) (yellowPanelAbsoluteFrameIndex w)
             (yellowPanelAbsoluteFrameIndex w')"
    using w1(5) w'(5) unfolding a w1(3) by (auto intro: tracked_append)
  ultimately show ?case by blast
qed

section \<open>Advancing the slot\<close>

lemma advanceColor_slots [simp]:
  "advanceColor 0 = 1" "advanceColor 1 = 2" "advanceColor 2 = 0"
  by (simp_all add: advanceColor_def plugin_consts)

lemma nextColor_iter:
  assumes "0 < k"
    and "\<And>j. 0 < j \<Longrightarrow> j < k \<Longrightarrow> elemAt ids ((advanceColor ^^ j) c) = Inr IGNORED_PANEL_ID"
    and "elemAt ids ((advanceColor ^^ k) c) = Inr v" "v \<noteq> IGNORED_PANEL_ID"
  shows "nextColor ids c = Some (Inr ((advanceColor ^^ k) c))"
  using assms
proof (induction k arbitrary: c)
  case 0
  then show ?case by simp
next
  case (Suc k)
  show ?case
  proof (cases "k = 0")
    case True
    with Suc.prems(3,4) show ?thesis
      by (subst nextColor.simps) simp
  next
    case False
    from False Suc.prems(2) [of 1] have first: "elemAt ids (advanceColor c) = Inr IGNORED_PANEL_ID"
      by simp
    have "nextColor ids (advanceColor c) = Some (Inr ((advanceColor ^^ k) (advanceColor c)))"
    proof (rule Suc.IH)
      show "0 < k" using False by simp
      show "elemAt ids ((advanceColor ^^ j) (advanceColor c)) = Inr IGNORED_PANEL_ID"
        if "0 < j" "j < k" for j
        using Suc.prems(2) [of "Suc j"] that by (simp add: funpow_swap1)
      show "elemAt ids ((advanceColor ^^ k) (advanceColor c)) = Inr v"
        using Suc.prems(3) by (simp add: funpow_swap1)
      show "v \<noteq> IGNORED_PANEL_ID" by fact
    qed
    with first show ?thesis
      by (subst nextColor.simps) (simp add: funpow_swap1)
  qed
qed

lemma funpow_advanceColor:
  "(advanceColor ^^ 1) c = advanceColor c"
  "(advanceColor ^^ 2) c = advanceColor (advanceColor c)"
  "(advanceColor ^^ 3) c = advanceColor (advanceColor (advanceColor c))"
  by (simp_all add: numeral_2_eq_2 numeral_3_eq_3)

lemma nextColor_slots:
  assumes ids: "ids = [redId, yellowId, greenId]"
    and c: "c = 0 \<or> c = 1 \<or> c = 2"
    and some: "redId \<noteq> IGNORED_PANEL_ID \<or> yellowId \<noteq> IGNORED_PANEL_ID \<or> greenId \<noteq> IGNORED_PANEL_ID"
  shows "\<exists>k. 0 < k \<and> k \<le> 3 \<and>
           nextColor ids c = Some (Inr ((advanceColor ^^ k) c)) \<and>
           0 \<le> (advanceColor ^^ k) c \<and> (advanceColor ^^ k) c \<le> 2 \<and>
           ids ! nat ((advanceColor ^^ k) c) \<noteq> IGNORED_PANEL_ID \<and>
           (\<forall>j. 0 < j \<and> j < k \<longrightarrow> ids ! nat ((advanceColor ^^ j) c) = IGNORED_PANEL_ID)"
proof -
  have at: "elemAt ids 0 = Inr redId" "elemAt ids 1 = Inr yellowId" "elemAt ids 2 = Inr greenId"
    by (simp_all add: ids elemAt_def)
  have nth: "ids ! nat 0 = redId" "ids ! nat 1 = yellowId" "ids ! nat 2 = greenId"
    by (simp_all add: ids)
  have one: ?thesis
    if "elemAt ids (advanceColor c) = Inr v" "v \<noteq> IGNORED_PANEL_ID"
      "0 \<le> advanceColor c" "advanceColor c \<le> 2" "ids ! nat (advanceColor c) = v" for v
  proof -
    have "nextColor ids c = Some (Inr ((advanceColor ^^ 1) c))"
      by (rule nextColor_iter [where v = v]) (use that in simp_all)
    with that show ?thesis
      by (intro exI [of _ 1]) simp
  qed
  have two: ?thesis
    if "elemAt ids (advanceColor c) = Inr IGNORED_PANEL_ID"
      "ids ! nat (advanceColor c) = IGNORED_PANEL_ID"
      "elemAt ids (advanceColor (advanceColor c)) = Inr v" "v \<noteq> IGNORED_PANEL_ID"
      "0 \<le> advanceColor (advanceColor c)" "advanceColor (advanceColor c) \<le> 2"
      "ids ! nat (advanceColor (advanceColor c)) = v" for v
  proof -
    have "nextColor ids c = Some (Inr ((advanceColor ^^ 2) c))"
    proof (rule nextColor_iter [where v = v])
      fix j :: nat assume "0 < j" "j < 2"
      then have "j = 1" by simp
      with that show "elemAt ids ((advanceColor ^^ j) c) = Inr IGNORED_PANEL_ID" by simp
    qed (use that in \<open>simp_all add: funpow_advanceColor\<close>)
    moreover have "ids ! nat ((advanceColor ^^ j) c) = IGNORED_PANEL_ID" if "0 < j \<and> j < 2" for j
    proof -
      from that have "j = 1" by arith
      with \<open>ids ! nat (advanceColor c) = IGNORED_PANEL_ID\<close> show ?thesis by simp
    qed
    ultimately show ?thesis using that
      by (intro exI [of _ 2]) (simp add: funpow_advanceColor)
  qed
  have three: ?thesis
    if "elemAt ids (advanceColor c) = Inr IGNORED_PANEL_ID"
      "ids ! nat (advanceColor c) = IGNORED_PANEL_ID"
      "elemAt ids (advanceColor (advanceColor c)) = Inr IGNORED_PANEL_ID"
      "ids ! nat (advanceColor (advanceColor c)) = IGNORED_PANEL_ID"
      "elemAt ids (advanceColor (advanceColor (advanceColor c))) = Inr v" "v \<noteq> IGNORED_PANEL_ID"
      "0 \<le> advanceColor (advanceColor (advanceColor c))"
      "advanceColor (advanceColor (advanceColor c)) \<le> 2"
      "ids ! nat (advanceColor (advanceColor (advanceColor c))) = v" for v
  proof -
    have "nextColor ids c = Some (Inr ((advanceColor ^^ 3) c))"
    proof (rule nextColor_iter [where v = v])
      fix j :: nat assume "0 < j" "j < 3"
      then have "j = 1 \<or> j = 2" by auto
      with that show "elemAt ids ((advanceColor ^^ j) c) = Inr IGNORED_PANEL_ID"
        by (auto simp: funpow_advanceColor)
    qed (use that in \<open>simp_all add: funpow_advanceColor\<close>)
    moreover have "ids ! nat ((advanceColor ^^ j) c) = IGNORED_PANEL_ID" if "0 < j \<and> j < 3" for j
    proof -
      from that have "j = 1 \<or> j = 2" by arith
      with \<open>ids ! nat (advanceColor c) = IGNORED_PANEL_ID\<close>
        \<open>ids ! nat (advanceColor (advanceColor c)) = IGNORED_PANEL_ID\<close>
      show ?thesis by (auto simp: funpow_advanceColor)
    qed
    ultimately show ?thesis using that
      by (intro exI [of _ 3]) (simp add: funpow_advanceColor)
  qed
  from c show ?thesis
  proof (elim disjE)
    assume c0: "c = 0"
    show ?thesis
    proof (cases "yellowId = IGNORED_PANEL_ID")
      case False
      then show ?thesis using at nth by (intro one [of yellowId]) (simp_all add: c0)
    next
      case y: True
      show ?thesis
      proof (cases "greenId = IGNORED_PANEL_ID")
        case False
        then show ?thesis using at nth y by (intro two [of greenId]) (simp_all add: c0)
      next
        case True
        with y some have "redId \<noteq> IGNORED_PANEL_ID" by simp
        then show ?thesis using at nth y True by (intro three [of redId]) (simp_all add: c0)
      qed
    qed
  next
    assume c1: "c = 1"
    show ?thesis
    proof (cases "greenId = IGNORED_PANEL_ID")
      case False
      then show ?thesis using at nth by (intro one [of greenId]) (simp_all add: c1)
    next
      case y: True
      show ?thesis
      proof (cases "redId = IGNORED_PANEL_ID")
        case False
        then show ?thesis using at nth y by (intro two [of redId]) (simp_all add: c1)
      next
        case True
        with y some have "yellowId \<noteq> IGNORED_PANEL_ID" by simp
        then show ?thesis using at nth y True by (intro three [of yellowId]) (simp_all add: c1)
      qed
    qed
  next
    assume c2: "c = 2"
    show ?thesis
    proof (cases "redId = IGNORED_PANEL_ID")
      case False
      then show ?thesis using at nth by (intro one [of redId]) (simp_all add: c2)
    next
      case y: True
      show ?thesis
      proof (cases "yellowId = IGNORED_PANEL_ID")
        case False
        then show ?thesis using at nth y by (intro two [of yellowId]) (simp_all add: c2)
      next
        case True
        with y some have "greenId \<noteq> IGNORED_PANEL_ID" by simp
        then show ?thesis using at nth y True by (intro three [of greenId]) (simp_all add: c2)
      qed
    qed
  qed
qed

section \<open>One call of the Driver\<close>

lemma three_elements:
  assumes "length (xs :: 'a list) = 3"
  obtains x0 x1 x2 where "xs = [x0, x1, x2]"
  using assms by (cases xs; cases "tl xs"; cases "tl (tl xs)") auto

lemma tracked_found:
  assumes "tracked target pids 0 0 recorded" "target \<in> set pids"
  shows "\<exists>k<length pids. pids ! k = target \<and> recorded = int k"
  using assms by (auto simp: tracked_def)

lemma paint_entry:
  assumes "k < length pids" "length pids \<le> length buffer"
  shows "writeFrame (map blackFrame pids @ drop (length pids) buffer) (int k) (paint color) =
         Inr ((map blackFrame pids)[k := paint color (blackFrame (pids ! k))] @
              drop (length pids) buffer)"
  using assms by (simp add: writeFrame_def nth_append list_update_append)

lemma getPluginFrame_result:
  assumes "inService p" "length (allPanelIds (frameSlices p)) \<le> length buffer"
  shows "\<exists>k c'. k < length (allPanelIds (frameSlices p)) \<and>
           allPanelIds (frameSlices p) ! k = colorPanelIds p ! nat (currentColorIndex p) \<and>
           nextColor (colorPanelIds p) (currentColorIndex p) = Some (Inr c') \<and>
           getPluginFrame p buffer sleepTime0 =
             Some (Inr \<lparr>outFrames =
                          (map blackFrame (allPanelIds (frameSlices p)))
                            [k := paint (colors p ! nat (currentColorIndex p))
                                    (blackFrame (allPanelIds (frameSlices p) ! k))] @
                          drop (length (allPanelIds (frameSlices p))) buffer,
                        nFrames = int (length (allPanelIds (frameSlices p))),
                        sleepTime =
                          (if currentColorIndex p = YELLOW
                           then yellowSleepTime (transitionTime p) else transitionTime p),
                        after = p\<lparr>currentColorIndex := c'\<rparr>\<rparr>)"
proof -
  let ?all = "allPanelIds (frameSlices p)"
  let ?c = "currentColorIndex p"
  from assms(1) have len: "length (colors p) = 3" "length (colorPanelIds p) = 3"
    and c: "?c = 0 \<or> ?c = 1 \<or> ?c = 2"
    and active: "colorPanelIds p ! nat ?c \<noteq> IGNORED_PANEL_ID"
      "colorPanelIds p ! nat ?c \<in> set ?all"
    by (auto simp: inService_def plugin_consts)
  from len(2) obtain redId yellowId greenId where ids: "colorPanelIds p = [redId, yellowId, greenId]"
    by (rule three_elements)
  from len(1) obtain redColor yellowColor greenColor
    where cs: "colors p = [redColor, yellowColor, greenColor]"
    by (rule three_elements)
  have "0 \<le> index (initialWalk buffer)"
    "nat (index (initialWalk buffer)) + length ?all \<le> length (frames (initialWalk buffer))"
    using assms(2) by (simp_all add: initialWalk_def)
  from resetSlices_walk [OF ids this] obtain w
    where w: "resetSlices (colorPanelIds p) (frameSlices p) (initialWalk buffer) = Inr w"
      "frames w = map blackFrame ?all @ drop (length ?all) buffer"
      "index w = int (length ?all)"
      "tracked redId ?all 0 0 (redPanelAbsoluteFrameIndex w)"
      "yellowId \<noteq> IGNORED_PANEL_ID \<longrightarrow>
         tracked yellowId ?all 0 0 (yellowPanelAbsoluteFrameIndex w)"
      "tracked greenId ?all 0 0 (greenPanelAbsoluteFrameIndex w)"
    by (auto simp: initialWalk_def split: if_splits)
  from c active ids have "redId \<noteq> IGNORED_PANEL_ID \<or> yellowId \<noteq> IGNORED_PANEL_ID \<or>
      greenId \<noteq> IGNORED_PANEL_ID"
    by auto
  from nextColor_slots [OF ids c this] obtain c'
    where c': "nextColor (colorPanelIds p) ?c = Some (Inr c')"
    by blast
  have "\<exists>k<length ?all. ?all ! k = colorPanelIds p ! nat ?c \<and>
      setCurrentColor p w sleepTime0 =
        Inr ((map blackFrame ?all)[k := paint (colors p ! nat ?c) (blackFrame (?all ! k))] @
               drop (length ?all) buffer,
             if ?c = YELLOW then yellowSleepTime (transitionTime p) else transitionTime p)"
    using c
  proof (elim disjE)
    assume c0: "?c = 0"
    with active ids w(4) obtain k where "k < length ?all" "?all ! k = redId"
      "redPanelAbsoluteFrameIndex w = int k"
      using tracked_found [of redId ?all] by auto
    with c0 ids cs w(2) assms(2) show ?thesis
      by (intro exI [of _ k])
        (simp add: setCurrentColor_def bindE_def elemAt_def paint_entry plugin_consts)
  next
    assume c1: "?c = 1"
    with active ids w(5) obtain k where "k < length ?all" "?all ! k = yellowId"
      "yellowPanelAbsoluteFrameIndex w = int k"
      using tracked_found [of yellowId ?all] by auto
    with c1 ids cs w(2) assms(2) show ?thesis
      by (intro exI [of _ k])
        (simp add: setCurrentColor_def bindE_def elemAt_def paint_entry plugin_consts)
  next
    assume c2: "?c = 2"
    with active ids w(6) obtain k where "k < length ?all" "?all ! k = greenId"
      "greenPanelAbsoluteFrameIndex w = int k"
      using tracked_found [of greenId ?all] by auto
    with c2 ids cs w(2) assms(2) show ?thesis
      by (intro exI [of _ k])
        (simp add: setCurrentColor_def bindE_def elemAt_def paint_entry plugin_consts)
  qed
  then obtain k where k: "k < length ?all" "?all ! k = colorPanelIds p ! nat ?c"
    "setCurrentColor p w sleepTime0 =
        Inr ((map blackFrame ?all)[k := paint (colors p ! nat ?c) (blackFrame (?all ! k))] @
               drop (length ?all) buffer,
             if ?c = YELLOW then yellowSleepTime (transitionTime p) else transitionTime p)"
    by blast
  from w(1,3) k(3) c' have "getPluginFrame p buffer sleepTime0 =
             Some (Inr \<lparr>outFrames =
                          (map blackFrame ?all)
                            [k := paint (colors p ! nat ?c) (blackFrame (?all ! k))] @
                          drop (length ?all) buffer,
                        nFrames = int (length ?all),
                        sleepTime =
                          (if ?c = YELLOW
                           then yellowSleepTime (transitionTime p) else transitionTime p),
                        after = p\<lparr>currentColorIndex := c'\<rparr>\<rparr>)"
    by (simp add: getPluginFrame_def)
  with k(1,2) c' show ?thesis by blast
qed

section \<open>The amber delay\<close>

text \<open>
  The constant is a 53-bit mantissa, and no \<open>double\<close> is nearer to 0.4: those between 1/4
  and 1/2 are \<open>2 ^ 54\<close>-ths, and the constant is less than half of one away.
\<close>

lemma double_0_4_nearest:
  "bitlen (mantissa double_0_4) = 53"
  "exponent double_0_4 = - 54"
  "\<bar>double_value double_0_4 - 0.4\<bar> < 1 / 2 ^ 55"
  by (simp_all add: double_0_4_def double_value_def bitlen_def compute_floorlog)

lemma rounded_quotient:
  fixes n q' :: int and s :: nat
  assumes n: "0 \<le> n" "n \<le> 2 ^ 31" and s: "s \<le> 31"
    and q': "q' = n * 7205759403792794 div 2 ^ s \<or> q' = n * 7205759403792794 div 2 ^ s + 1"
  shows "q' div 2 ^ (54 - s) = 2 * n div 5"
proof -
  define a where "a = n * 7205759403792794"
  define k where "k = 2 * n div 5"
  define P :: int where "P = 2 ^ s"
  define Q :: int where "Q = 2 ^ (54 - s)"
  define q where "q = a div P"
  have PQ: "Q * P = 18014398509481984"
  proof -
    have "Q * P = 2 ^ (54 - s + s)" unfolding P_def Q_def by (simp add: power_add)
    also from s have "54 - s + s = 54" by simp
    finally show ?thesis by simp
  qed
  have P: "0 < P" "P \<le> 2147483648"
  proof -
    show "0 < P" by (simp add: P_def)
    from s have "(2::int) ^ s \<le> 2 ^ 31" by (intro power_increasing) simp_all
    then show "P \<le> 2147483648" by (simp add: P_def)
  qed
  have Q: "0 < Q" by (simp add: Q_def)
  have k: "5 * k \<le> 2 * n" "2 * n \<le> 5 * k + 4"
    unfolding k_def by presburger+
  have a5: "5 * a = 2 * n * 18014398509481984 + 2 * n"
    by (simp add: a_def)
  from n have nb: "n \<le> 2147483648" by simp
  have low: "k * 18014398509481984 \<le> a"
    using k a5 n by linarith
  have high: "a + P < (k + 1) * 18014398509481984"
    using k a5 nb P by (simp add: algebra_simps)
  have a0: "0 \<le> a" using n by (simp add: a_def)
  have qb: "q * P \<le> a" "a < q * P + P"
  proof -
    have "a = P * q + a mod P" by (simp add: q_def)
    moreover have "0 \<le> a mod P" "a mod P < P" using P by simp_all
    ultimately show "q * P \<le> a" "a < q * P + P" by (simp_all add: mult.commute)
  qed
  have "k * Q * P \<le> a" using low by (simp add: mult.assoc PQ)
  with qb(2) have "k * Q * P < (q + 1) * P" by (simp add: algebra_simps)
  with P(1) have "k * Q < q + 1" by (simp add: mult_less_cancel_right)
  then have lower: "k * Q \<le> q" by simp
  have "(q + 1) * P \<le> a + P" using qb(1) by (simp add: algebra_simps)
  also have "\<dots> < (k + 1) * Q * P" using high by (simp add: mult.assoc PQ)
  finally have "q + 1 < (k + 1) * Q" using P(1) by (simp add: mult_less_cancel_right)
  with lower q' have "k * Q \<le> q'" "q' < (k + 1) * Q"
    by (auto simp: q_def a_def P_def)
  then have "q' div Q = k"
    using Q by (intro int_div_pos_eq [where r = "q' - Q * k"]) (simp_all add: algebra_simps)
  then show ?thesis by (simp add: Q_def k_def)
qed

lemma yellowSleepTime_truncates:
  assumes "- (2 ^ 31) \<le> t" "t < 2 ^ 31"
  shows "yellowSleepTime t = cdiv (2 * t) 5"
proof (cases "t = 0")
  case True
  then show ?thesis
    by (simp add: yellowSleepTime_def double_mult_def double_of_int_def double_0_4_def
        roundToDouble_def int_of_double_def cdiv_def)
next
  case False
  define n where "n = \<bar>t\<bar>"
  define m where "m = t * 7205759403792794"
  from assms False have n: "0 < n" "n \<le> 2 ^ 31" by (simp_all add: n_def)
  have am: "\<bar>m\<bar> = n * 7205759403792794" by (simp add: m_def n_def abs_mult)
  have sm: "sgn m = sgn t" by (simp add: m_def sgn_mult)
  have y: "yellowSleepTime t = int_of_double (roundToDouble m (- 54))"
    by (simp add: yellowSleepTime_def double_mult_def double_of_int_def double_0_4_def m_def)
  have goal: "cdiv (2 * t) 5 = sgn t * (2 * n div 5)"
    by (simp add: cdiv_def n_def sgn_mult abs_mult)
  show ?thesis
  proof (cases "bitlen \<bar>m\<bar> \<le> 53")
    case True
    then have "roundToDouble m (- 54) = \<lparr>mantissa = m, exponent = - 54\<rparr>"
      by (simp add: roundToDouble_def)
    then have "yellowSleepTime t = sgn m * (\<bar>m\<bar> div 2 ^ 54)"
      by (simp add: y int_of_double_def)
    moreover have "\<bar>m\<bar> div 2 ^ (54 - 0) = 2 * n div 5"
      using n by (intro rounded_quotient) (simp_all add: am)
    ultimately show ?thesis by (simp add: goal sm)
  next
    case False
    define s where "s = nat (bitlen \<bar>m\<bar> - 53)"
    define q where "q = \<bar>m\<bar> div 2 ^ s"
    define rest where "rest = \<bar>m\<bar> mod 2 ^ s"
    define q' where "q' = (if rest > 2 ^ (s - 1) \<or> (rest = 2 ^ (s - 1) \<and> odd q) then q + 1 else q)"
    have r: "roundToDouble m (- 54) = \<lparr>mantissa = sgn m * q', exponent = - 54 + int s\<rparr>"
      using False by (simp add: roundToDouble_def Let_def s_def q_def rest_def q'_def)
    have "\<bar>m\<bar> < 2 ^ 84"
    proof -
      have "n * 7205759403792794 \<le> 2 ^ 31 * 7205759403792794"
        using n by (intro mult_right_mono) simp_all
      also have "\<dots> < (2 :: int) ^ 84" by simp
      finally show ?thesis by (simp add: am)
    qed
    then have "bitlen \<bar>m\<bar> \<le> 84" by (simp add: bitlen_le_iff_power)
    with False have s: "s \<le> 31" "0 < s" by (simp_all add: s_def)
    have "q' div 2 ^ (54 - s) = 2 * n div 5"
      using n s by (intro rounded_quotient) (auto simp: q'_def q_def am)
    moreover have "0 \<le> q" by (simp add: q_def pos_imp_zdiv_nonneg_iff)
    then have "0 \<le> q'" by (simp add: q'_def)
    moreover from s have "nat (54 - int s) = 54 - s" by simp
    moreover have "sgn (sgn t * q') * (\<bar>sgn t * q'\<bar> div x) = sgn t * (q' div x)"
      if "0 \<le> q'" for x
      using \<open>t \<noteq> 0\<close> that by (cases "q' = 0") (simp_all add: sgn_mult abs_mult)
    ultimately show ?thesis using s \<open>0 \<le> q'\<close>
      by (simp add: y r int_of_double_def sm goal)
  qed
qed



lemma cdiv_truncated: "cdiv (2 * t) 5 = truncated (0.4 * real_of_int t)"
proof (cases "0 \<le> t")
  case True
  have "0.4 * real_of_int t = real_of_int (2 * t) / real_of_int 5" by simp
  then have "\<lfloor>0.4 * real_of_int t\<rfloor> = 2 * t div 5"
    by (simp only: floor_divide_of_int_eq)
  moreover from True have "cdiv (2 * t) 5 = 2 * t div 5"
    by (cases "t = 0") (simp_all add: cdiv_def)
  ultimately show ?thesis using True by (simp add: truncated_def)
next
  case False
  have "- (0.4 * real_of_int t) = real_of_int (2 * - t) / real_of_int 5" by simp
  then have "\<lfloor>- (0.4 * real_of_int t)\<rfloor> = 2 * - t div 5"
    by (simp only: floor_divide_of_int_eq)
  then have "\<lceil>0.4 * real_of_int t\<rceil> = - (2 * - t div 5)"
    by (simp add: ceiling_def)
  moreover from False have "cdiv (2 * t) 5 = - (2 * - t div 5)"
    by (simp add: cdiv_def)
  ultimately show ?thesis using False by (simp add: truncated_def)
qed

lemma length_loadUserColors [simp]: "length (loadUserColors k i paletteColors cs) = length cs"
  by (induction k arbitrary: i cs) simp_all

lemma length_initColors: "length (initColors paletteColors) = 3"
  by (simp add: initColors_def defaultColors_def)

lemma chosen_in_allPanelIds:
  "frameSlice \<in> set slices \<Longrightarrow> set (panelIds frameSlice) \<subseteq> set (allPanelIds slices)"
  by (auto simp: allPanelIds_def)

lemma initPlugin_inService:
  assumes "wellFormed layoutData slices" "realPanels slices"
    and "initPlugin layoutData paletteColors slices transTimeOption = Inr p"
  shows "inService p"
proof -
  from assms(1) have "slices \<noteq> []" by (simp add: wellFormed_def)
  from elemAt_middlest(2) [OF this]
  have m: "middlestFrameSlice slices \<in> set slices" .
  with assms(2) have real: "IGNORED_PANEL_ID \<notin> set (panelIds (middlestFrameSlice slices))"
    by (simp add: realPanels_def)
  from m have sub: "set (panelIds (middlestFrameSlice slices)) \<subseteq> set (allPanelIds slices)"
    by (rule chosen_in_allPanelIds)
  from initPlugin_slots [OF assms(1), of paletteColors transTimeOption] assms(3)
  have p: "frameSlices p = slices" "colors p = initColors paletteColors"
    "currentColorIndex p = RED" "length (colorPanelIds p) = 3"
    "colorPanelIds p ! 0 \<in> set (panelIds (middlestFrameSlice slices))"
    "colorPanelIds p ! 2 \<in> set (panelIds (middlestFrameSlice slices))"
    "colorPanelIds p ! 1 = IGNORED_PANEL_ID \<or>
     colorPanelIds p ! 1 \<in> set (panelIds (middlestFrameSlice slices))"
    by auto
  with real sub show ?thesis
    by (auto simp: inService_def length_initColors RED_def YELLOW_def GREEN_def)
qed

lemma nextColor_inService:
  assumes "inService p" "nextColor (colorPanelIds p) (currentColorIndex p) = Some (Inr c')"
  shows "inService (p\<lparr>currentColorIndex := c'\<rparr>)"
proof -
  let ?c = "currentColorIndex p"
  from assms(1) have len: "length (colorPanelIds p) = 3"
    and c: "?c = 0 \<or> ?c = 1 \<or> ?c = 2"
    and active: "colorPanelIds p ! nat ?c \<noteq> IGNORED_PANEL_ID"
    by (auto simp: inService_def plugin_consts)
  from len obtain redId yellowId greenId where ids: "colorPanelIds p = [redId, yellowId, greenId]"
    by (rule three_elements)
  from c active ids have "redId \<noteq> IGNORED_PANEL_ID \<or> yellowId \<noteq> IGNORED_PANEL_ID \<or>
      greenId \<noteq> IGNORED_PANEL_ID"
    by auto
  from nextColor_slots [OF ids c this] assms(2)
  have "0 \<le> c'" "c' \<le> 2" "colorPanelIds p ! nat c' \<noteq> IGNORED_PANEL_ID"
    by auto
  then have "c' \<in> {RED, YELLOW, GREEN}" by (auto simp: plugin_consts)
  with assms(1) \<open>colorPanelIds p ! nat c' \<noteq> IGNORED_PANEL_ID\<close> show ?thesis
    by (simp add: inService_def)
qed

lemma getPluginFrame_entries:
  assumes "inService p" "length (allPanelIds (frameSlices p)) \<le> length buffer"
  shows "\<exists>t k. getPluginFrame p buffer sleepTime0 = Some (Inr t) \<and>
           k < length (allPanelIds (frameSlices p)) \<and>
           allPanelIds (frameSlices p) ! k = colorPanelIds p ! nat (currentColorIndex p) \<and>
           nFrames t = int (length (allPanelIds (frameSlices p))) \<and>
           length (outFrames t) = length buffer \<and>
           drop (length (allPanelIds (frameSlices p))) (outFrames t) =
             drop (length (allPanelIds (frameSlices p))) buffer \<and>
           (\<forall>j<length (allPanelIds (frameSlices p)).
              outFrames t ! j =
                (if j = k then paint (colors p ! nat (currentColorIndex p))
                                (blackFrame (allPanelIds (frameSlices p) ! j))
                 else blackFrame (allPanelIds (frameSlices p) ! j))) \<and>
           sleepTime t =
             (if currentColorIndex p = YELLOW then yellowSleepTime (transitionTime p)
              else transitionTime p) \<and>
           nextColor (colorPanelIds p) (currentColorIndex p) =
             Some (Inr (currentColorIndex (after t))) \<and>
           after t = p\<lparr>currentColorIndex := currentColorIndex (after t)\<rparr> \<and>
           inService (after t)"
proof -
  let ?all = "allPanelIds (frameSlices p)"
  from getPluginFrame_result [OF assms, of sleepTime0] obtain k c' t
    where k: "k < length ?all" "?all ! k = colorPanelIds p ! nat (currentColorIndex p)"
      and c': "nextColor (colorPanelIds p) (currentColorIndex p) = Some (Inr c')"
      and t: "getPluginFrame p buffer sleepTime0 = Some (Inr t)"
      and fields: "outFrames t =
          (map blackFrame ?all)
            [k := paint (colors p ! nat (currentColorIndex p)) (blackFrame (?all ! k))] @
          drop (length ?all) buffer"
        "nFrames t = int (length ?all)"
        "sleepTime t =
          (if currentColorIndex p = YELLOW
           then yellowSleepTime (transitionTime p) else transitionTime p)"
        "after t = p\<lparr>currentColorIndex := c'\<rparr>"
    by force
  from nextColor_inService [OF assms(1) c'] fields(4) have "inService (after t)"
    by simp
  moreover from fields(1) assms(2) have "length (outFrames t) = length buffer"
    "drop (length ?all) (outFrames t) = drop (length ?all) buffer"
    by simp_all
  moreover have "outFrames t ! j =
      (if j = k then paint (colors p ! nat (currentColorIndex p)) (blackFrame (?all ! j))
       else blackFrame (?all ! j))"
    if "j < length ?all" for j
    using that fields(1) by (simp add: nth_append nth_list_update)
  moreover from fields(4) have "currentColorIndex (after t) = c'"
    "after t = p\<lparr>currentColorIndex := currentColorIndex (after t)\<rparr>"
    by simp_all
  ultimately show ?thesis
    using k c' t fields(2,3) by blast
qed

section \<open>The sequence of slots\<close>

text \<open>
  The Selector establishes \<open>inService\<close> on a well-formed layout of real panels, with the
  current slot RED, and a call of the Driver keeps it: it holds at every call.
\<close>

lemma initPlugin_fresh:
  assumes "wellFormed layoutData slices" "realPanels slices"
  shows "\<exists>p. initPlugin layoutData paletteColors slices transTimeOption = Inr p \<and>
           inService p \<and> currentColorIndex p = RED \<and> frameSlices p = slices"
proof -
  from initPlugin_slots [OF assms(1), of paletteColors transTimeOption] obtain p
    where p: "initPlugin layoutData paletteColors slices transTimeOption = Inr p"
      "currentColorIndex p = RED" "frameSlices p = slices"
    by blast
  from initPlugin_inService [OF assms p(1)] p show ?thesis by blast
qed

lemma getPluginFrame_keeps_inService:
  assumes "inService p" "length (allPanelIds (frameSlices p)) \<le> length buffer"
  shows "\<exists>t. getPluginFrame p buffer sleepTime0 = Some (Inr t) \<and> inService (after t) \<and>
           frameSlices (after t) = frameSlices p \<and> colorPanelIds (after t) = colorPanelIds p \<and>
           length (outFrames t) = length buffer"
proof -
  from getPluginFrame_entries [OF assms, of sleepTime0] obtain t
    where t: "getPluginFrame p buffer sleepTime0 = Some (Inr t)" "inService (after t)"
      "length (outFrames t) = length buffer"
      "after t = p\<lparr>currentColorIndex := currentColorIndex (after t)\<rparr>"
    by blast
  have "frameSlices (after t) = frameSlices p"
    "colorPanelIds (after t) = colorPanelIds p"
    by (subst t(4), simp)+
  with t show ?thesis by blast
qed

lemma nextColor_next:
  assumes "0 \<le> advanceColor c" "advanceColor c < int (length ids)"
    and "ids ! nat (advanceColor c) \<noteq> IGNORED_PANEL_ID"
  shows "nextColor ids c = Some (Inr (advanceColor c))"
  using assms by (subst nextColor.simps) (simp add: elemAt_def)

lemma nextColor_skip:
  assumes "0 \<le> advanceColor c" "advanceColor c < int (length ids)"
    and "ids ! nat (advanceColor c) = IGNORED_PANEL_ID"
  shows "nextColor ids c = nextColor ids (advanceColor c)"
  using assms by (subst nextColor.simps) (simp add: elemAt_def)





section \<open>The Driver on the sample layouts\<close>

lemmas run_defs =
  getPluginFrame_def initialWalk_def bindE_def resetPanel_def writeFrame_def elemAt_def
  setCurrentColor_def paint_def nextColor_next nextColor_skip advanceColor_def plugin_consts
  singleSlices_def columnSlices_def pairSlices_def defaultColors_def

lemma yellowSleepTime_51: "yellowSleepTime 51 = 20"
  by (simp add: yellowSleepTime_def double_mult_def double_of_int_def double_0_4_def
      roundToDouble_def int_of_double_def bitlen_def compute_floorlog Let_def)

lemma yellowSleepTime_50: "yellowSleepTime 50 = 20"
  by (simp add: yellowSleepTime_def double_mult_def double_of_int_def double_0_4_def
      roundToDouble_def int_of_double_def bitlen_def compute_floorlog Let_def)

lemma darkPlugin_selected:
  "initPlugin sampleLayout darkPalette singleSlices None = Inr darkPlugin"
  by (simp add: initPlugin_def singleSlices_def sampleLayout_def middlestFrameSliceIndex_def
      middleFrameSliceIndex_cdiv cdiv_def elemAt_def comparePanelIds_def darkPalette_def
      bindColorPanelIds_def initColors_def plugin_consts darkPlugin_def defaultColors_def)

lemma darkPlugin_tick:
  "getPluginFrame darkPlugin spareBuffer 0 =
     Some (Inr \<lparr>outFrames = [blackFrame 10, blackFrame 20, blackFrame 30, blackFrame 40,
                              blackFrame 50,
                              \<lparr>panelId = 7, r = 7, g = 7, b = 7, transTime = 7\<rparr>],
                nFrames = 5, sleepTime = 50,
                after = darkPlugin\<lparr>currentColorIndex := 1\<rparr>\<rparr>)"
  by (simp add: run_defs darkPlugin_def spareBuffer_def blackFrame_def)

lemma amberPlugin_tick:
  "getPluginFrame amberPlugin spareBuffer 0 =
     Some (Inr \<lparr>outFrames = [blackFrame 10, blackFrame 20,
                              \<lparr>panelId = 30, r = 255, g = 255, b = 0, transTime = 1\<rparr>,
                              blackFrame 40, blackFrame 50,
                              \<lparr>panelId = 7, r = 7, g = 7, b = 7, transTime = 7\<rparr>],
                nFrames = 5, sleepTime = 20,
                after = amberPlugin\<lparr>currentColorIndex := 2\<rparr>\<rparr>)"
  by (simp add: run_defs amberPlugin_def spareBuffer_def blackFrame_def yellowSleepTime_51)

section \<open>Properties of a call\<close>

lemma truncated_of_int [simp]: "truncated (real_of_int z) = z"
  by (simp add: truncated_def)

lemma truncated_exact:
  assumes "5 dvd t"
  shows "real_of_int (truncated (0.4 * real_of_int t)) = 0.4 * real_of_int t"
proof -
  from assms obtain m where "t = 5 * m" ..
  then have "0.4 * real_of_int t = real_of_int (2 * m)" by simp
  then show ?thesis by (simp only: truncated_of_int)
qed

text \<open>
  C9. When the three slots are not all ignored, the loop that advances the slot ends: after
  \<open>k\<close> rounds of its body, \<open>1 \<le> k \<le> 3\<close>, each an increment with the wrap from GREEN to
  RED, it stops on a slot that is not ignored, every slot it passed before being ignored.
\<close>

theorem nextColor_terminates:
  assumes "length ids = 3" "c \<in> {RED, YELLOW, GREEN}"
    and "\<exists>slot \<in> {RED, YELLOW, GREEN}. ids ! nat slot \<noteq> IGNORED_PANEL_ID"
  shows "\<exists>k. 0 < k \<and> k \<le> 3 \<and>
           nextColor ids c = Some (Inr ((advanceColor ^^ k) c)) \<and>
           (advanceColor ^^ k) c \<in> {RED, YELLOW, GREEN} \<and>
           ids ! nat ((advanceColor ^^ k) c) \<noteq> IGNORED_PANEL_ID \<and>
           (\<forall>j. 0 < j \<and> j < k \<longrightarrow> ids ! nat ((advanceColor ^^ j) c) = IGNORED_PANEL_ID)"
proof -
  from assms(1) obtain redId yellowId greenId where ids: "ids = [redId, yellowId, greenId]"
    by (rule three_elements)
  from assms(2) have c: "c = 0 \<or> c = 1 \<or> c = 2" by (auto simp: plugin_consts)
  from assms(3) ids have "redId \<noteq> IGNORED_PANEL_ID \<or> yellowId \<noteq> IGNORED_PANEL_ID \<or>
      greenId \<noteq> IGNORED_PANEL_ID"
    by (auto simp: RED_def YELLOW_def GREEN_def)
  from nextColor_slots [OF ids c this] obtain k
    where k: "0 < k" "k \<le> 3" "nextColor ids c = Some (Inr ((advanceColor ^^ k) c))"
      "0 \<le> (advanceColor ^^ k) c" "(advanceColor ^^ k) c \<le> 2"
      "ids ! nat ((advanceColor ^^ k) c) \<noteq> IGNORED_PANEL_ID"
      "\<forall>j. 0 < j \<and> j < k \<longrightarrow> ids ! nat ((advanceColor ^^ j) c) = IGNORED_PANEL_ID"
    by blast
  from k(4,5) have "(advanceColor ^^ k) c \<in> {RED, YELLOW, GREEN}"
    by (auto simp: plugin_consts)
  with k show ?thesis by blast
qed

theorem nextColor_terminates_witness:
  "nextColor [30, IGNORED_PANEL_ID, 20] RED = Some (Inr GREEN) \<and>
   (advanceColor ^^ 2) RED = GREEN"
proof -
  have "length [30, IGNORED_PANEL_ID, 20 :: int] = 3" "RED \<in> {RED, YELLOW, GREEN}"
    "\<exists>slot \<in> {RED, YELLOW, GREEN}. [30, IGNORED_PANEL_ID, 20] ! nat slot \<noteq> IGNORED_PANEL_ID"
    by (simp_all add: plugin_consts)
  from nextColor_terminates [OF this] obtain k
    where k: "nextColor [30, IGNORED_PANEL_ID, 20] RED = Some (Inr ((advanceColor ^^ k) RED))"
      "0 < k" "k \<le> 3"
      "[30, IGNORED_PANEL_ID, 20] ! nat ((advanceColor ^^ k) RED) \<noteq> IGNORED_PANEL_ID"
      "\<forall>j. 0 < j \<and> j < k \<longrightarrow>
         [30, IGNORED_PANEL_ID, 20] ! nat ((advanceColor ^^ j) RED) = IGNORED_PANEL_ID"
    by blast
  have two: "(advanceColor ^^ 2) RED = GREEN"
    by (simp add: funpow_advanceColor plugin_consts)
  from k(2,3) have "k = 1 \<or> k = 2 \<or> k = 3" by arith
  moreover from k(4) have "k \<noteq> 1"
    by (auto simp: funpow_advanceColor plugin_consts)
  moreover have "k \<noteq> 3"
  proof
    assume "k = 3"
    with k(5) have "[30, IGNORED_PANEL_ID, 20] ! nat ((advanceColor ^^ 2) RED) = IGNORED_PANEL_ID"
      by simp
    then show False by (simp add: funpow_advanceColor plugin_consts)
  qed
  ultimately have "k = 2" by simp
  with k(1) two show ?thesis by simp
qed

text \<open>
  C7. On a call of the Driver the reported frame count is the number of panels over all
  slices, whichever slot is current; the entries below that count carry the panel
  identifiers in slice order and then within-slice order, one entry each; and the buffer
  from that count on is left as the caller passed it. The call returns on a buffer of exactly
  that many entries, so no write falls outside it.
\<close>

theorem getPluginFrame_frame_count:
  assumes "inService p" "length (allPanelIds (frameSlices p)) \<le> length buffer"
  shows "\<exists>t. getPluginFrame p buffer sleepTime0 = Some (Inr t) \<and>
           nFrames t = int (length (allPanelIds (frameSlices p))) \<and>
           map panelId (take (length (allPanelIds (frameSlices p))) (outFrames t)) =
             allPanelIds (frameSlices p) \<and>
           length (outFrames t) = length buffer \<and>
           drop (length (allPanelIds (frameSlices p))) (outFrames t) =
             drop (length (allPanelIds (frameSlices p))) buffer"
proof -
  let ?all = "allPanelIds (frameSlices p)"
  from getPluginFrame_entries [OF assms, of sleepTime0] obtain t k
    where t: "getPluginFrame p buffer sleepTime0 = Some (Inr t)"
      "nFrames t = int (length ?all)" "length (outFrames t) = length buffer"
      "drop (length ?all) (outFrames t) = drop (length ?all) buffer"
      and entry: "\<forall>j<length ?all. outFrames t ! j =
          (if j = k then paint (colors p ! nat (currentColorIndex p)) (blackFrame (?all ! j))
           else blackFrame (?all ! j))"
    by blast
  have "map panelId (take (length ?all) (outFrames t)) = ?all"
  proof (rule nth_equalityI)
    show "length (map panelId (take (length ?all) (outFrames t))) = length ?all"
      using t(3) assms(2) by simp
    fix j assume "j < length (map panelId (take (length ?all) (outFrames t)))"
    then have "j < length ?all" by simp
    with entry t(3) assms(2) show "map panelId (take (length ?all) (outFrames t)) ! j = ?all ! j"
      by (simp add: paint_def blackFrame_def)
  qed
  with t show ?thesis by blast
qed

text \<open>
  C5, amended. On a call of the Driver exactly one entry, that of the panel bound to the
  current slot, carries the colour of that slot, which is not black unless the colour itself
  is (0,0,0); every other entry is exactly (0,0,0); and all entries have transition time 1.
\<close>

theorem getPluginFrame_one_panel_lit:
  assumes "inService p" "length (allPanelIds (frameSlices p)) \<le> length buffer"
  shows "\<exists>t k. getPluginFrame p buffer sleepTime0 = Some (Inr t) \<and>
           k < length (allPanelIds (frameSlices p)) \<and>
           panelId (outFrames t ! k) = colorPanelIds p ! nat (currentColorIndex p) \<and>
           hasColor (outFrames t ! k) (colors p ! nat (currentColorIndex p)) \<and>
           (colors p ! nat (currentColorIndex p) \<noteq> \<lparr>R = 0, G = 0, B = 0\<rparr> \<longrightarrow>
              \<not> isBlack (outFrames t ! k)) \<and>
           (\<forall>j<length (allPanelIds (frameSlices p)). j \<noteq> k \<longrightarrow> isBlack (outFrames t ! j)) \<and>
           (\<forall>j<length (allPanelIds (frameSlices p)). transTime (outFrames t ! j) = 1)"
proof -
  let ?all = "allPanelIds (frameSlices p)"
  let ?color = "colors p ! nat (currentColorIndex p)"
  from getPluginFrame_entries [OF assms, of sleepTime0] obtain t k
    where t: "getPluginFrame p buffer sleepTime0 = Some (Inr t)"
      and k: "k < length ?all" "?all ! k = colorPanelIds p ! nat (currentColorIndex p)"
      and entry: "\<forall>j<length ?all. outFrames t ! j =
          (if j = k then paint ?color (blackFrame (?all ! j)) else blackFrame (?all ! j))"
    by blast
  from entry k have lit: "outFrames t ! k = paint ?color (blackFrame (?all ! k))"
    by simp
  have "?color = \<lparr>R = 0, G = 0, B = 0\<rparr>" if "isBlack (paint ?color f)" for f
    using that by (cases ?color) (simp add: isBlack_def paint_def)
  with lit have "?color \<noteq> \<lparr>R = 0, G = 0, B = 0\<rparr> \<longrightarrow> \<not> isBlack (outFrames t ! k)"
    by auto
  moreover from lit k(2) have "panelId (outFrames t ! k) = colorPanelIds p ! nat (currentColorIndex p)"
    "hasColor (outFrames t ! k) ?color"
    by (simp_all add: paint_def blackFrame_def hasColor_def)
  moreover from entry have "\<forall>j<length ?all. j \<noteq> k \<longrightarrow> isBlack (outFrames t ! j)"
    by (simp add: isBlack_def blackFrame_def)
  moreover from entry have "\<forall>j<length ?all. transTime (outFrames t ! j) = 1"
    by (simp add: paint_def blackFrame_def)
  ultimately show ?thesis using t k(1) by blast
qed

text \<open>
  C6, amended. The reported delay is the base transition time when the current slot is RED
  or GREEN; when it is YELLOW it is 0.4 times the base transition time with the fraction
  discarded, the delay being an \<open>int\<close>, hence exactly 0.4 times the base whenever the base
  is a multiple of 5.
\<close>

theorem getPluginFrame_sleepTime:
  assumes "inService p" "length (allPanelIds (frameSlices p)) \<le> length buffer"
    and "- (2 ^ 31) \<le> transitionTime p" "transitionTime p < 2 ^ 31"
  shows "\<exists>t. getPluginFrame p buffer sleepTime0 = Some (Inr t) \<and>
           (currentColorIndex p = RED \<or> currentColorIndex p = GREEN \<longrightarrow>
              sleepTime t = transitionTime p) \<and>
           (currentColorIndex p = YELLOW \<longrightarrow>
              sleepTime t = truncated (0.4 * real_of_int (transitionTime p)) \<and>
              (5 dvd transitionTime p \<longrightarrow>
                 real_of_int (sleepTime t) = 0.4 * real_of_int (transitionTime p)))"
proof -
  from getPluginFrame_entries [OF assms(1,2), of sleepTime0] obtain t
    where t: "getPluginFrame p buffer sleepTime0 = Some (Inr t)"
      "sleepTime t =
         (if currentColorIndex p = YELLOW then yellowSleepTime (transitionTime p)
          else transitionTime p)"
    by blast
  have y: "yellowSleepTime (transitionTime p) = truncated (0.4 * real_of_int (transitionTime p))"
    using assms(3,4) by (simp only: yellowSleepTime_truncates cdiv_truncated)
  have "sleepTime t = transitionTime p"
    if "currentColorIndex p = RED \<or> currentColorIndex p = GREEN"
    using that t(2) by (auto simp: plugin_consts)
  moreover have "sleepTime t = truncated (0.4 * real_of_int (transitionTime p))"
    if "currentColorIndex p = YELLOW"
    using that t(2) y by (simp only: simp_thms if_True)
  moreover have "real_of_int (sleepTime t) = 0.4 * real_of_int (transitionTime p)"
    if "currentColorIndex p = YELLOW" "5 dvd transitionTime p"
    using that t(2) y truncated_exact [of "transitionTime p"] by (simp only: simp_thms if_True)
  ultimately show ?thesis using t(1) by blast
qed

lemma sample_allPanelIds:
  "allPanelIds singleSlices = [10, 20, 30, 40, 50]"
  "allPanelIds columnSlices = [10, 20, 40, 30, 50]"
  "allPanelIds pairSlices = [10, 20, 30, 40]"
  by (simp_all add: allPanelIds_def singleSlices_def columnSlices_def pairSlices_def)

lemma inService_samples:
  "inService columnPlugin" "inService pairPlugin" "inService amberPlugin" "inService darkPlugin"
  by (simp_all add: inService_def columnPlugin_def pairPlugin_def amberPlugin_def
      darkPlugin_def sample_allPanelIds defaultColors_def plugin_consts)

lemma spareBuffer_fits:
  "length (allPanelIds (frameSlices columnPlugin)) \<le> length spareBuffer"
  "length (allPanelIds (frameSlices pairPlugin)) \<le> length spareBuffer"
  "length (allPanelIds (frameSlices amberPlugin)) \<le> length spareBuffer"
  by (simp_all add: columnPlugin_def pairPlugin_def amberPlugin_def sample_allPanelIds
      spareBuffer_def)

lemma amberPlugin_reached:
  "initPlugin sampleLayout [] singleSlices (Some 51) = Inr (amberPlugin\<lparr>currentColorIndex := RED\<rparr>)"
  "map_option (map_sum id after)
     (getPluginFrame (amberPlugin\<lparr>currentColorIndex := RED\<rparr>) spareBuffer 0) =
   Some (Inr amberPlugin)"
  by (simp_all add: initPlugin_def sampleLayout_def middlestFrameSliceIndex_def
      middleFrameSliceIndex_cdiv cdiv_def comparePanelIds_def
      bindColorPanelIds_def initColors_def run_defs amberPlugin_def spareBuffer_def)

text \<open>
  C5, as stated. The claim: on every call exactly one entry is not black. With a palette
  whose first colour is (0,0,0) the Selector binds that colour to RED, and the first call of
  the Driver leaves every entry black.
\<close>

theorem dark_palette_all_black:
  "initPlugin sampleLayout darkPalette singleSlices None = Inr darkPlugin \<and>
   getPluginFrame darkPlugin spareBuffer 0 =
     Some (Inr \<lparr>outFrames = [blackFrame 10, blackFrame 20, blackFrame 30, blackFrame 40,
                              blackFrame 50,
                              \<lparr>panelId = 7, r = 7, g = 7, b = 7, transTime = 7\<rparr>],
                nFrames = 5, sleepTime = 50,
                after = darkPlugin\<lparr>currentColorIndex := 1\<rparr>\<rparr>) \<and>
   list_all isBlack [blackFrame 10, blackFrame 20, blackFrame 30, blackFrame 40, blackFrame 50]"
  using darkPlugin_selected darkPlugin_tick by (simp add: isBlack_def blackFrame_def)

text \<open>
  C6, as stated. The claim: the delay of the YELLOW slot equals 0.4 times the base. With
  \<open>transTime = 51\<close> the second call, on YELLOW, reports 20, and 0.4 times 51 is 20.4.
\<close>

theorem amber_delay_truncated:
  "initPlugin sampleLayout [] singleSlices (Some 51) =
     Inr (amberPlugin\<lparr>currentColorIndex := RED\<rparr>) \<and>
   map_option (map_sum id after)
     (getPluginFrame (amberPlugin\<lparr>currentColorIndex := RED\<rparr>) spareBuffer 0) =
     Some (Inr amberPlugin) \<and>
   currentColorIndex amberPlugin = YELLOW \<and>
   map_option (map_sum id sleepTime) (getPluginFrame amberPlugin spareBuffer 0) =
     Some (Inr 20) \<and>
   real_of_int 20 \<noteq> 0.4 * real_of_int (transitionTime amberPlugin)"
  using amberPlugin_reached amberPlugin_tick by (simp add: amberPlugin_def YELLOW_def)

theorem getPluginFrame_frame_count_witness:
  "inService pairPlugin \<and>
   length (allPanelIds (frameSlices pairPlugin)) \<le> length spareBuffer \<and>
   (\<exists>t. getPluginFrame pairPlugin spareBuffer 0 = Some (Inr t) \<and> nFrames t = 4 \<and>
      map panelId (take 4 (outFrames t)) = [10, 20, 30, 40] \<and>
      drop 4 (outFrames t) = drop 4 spareBuffer)"
proof -
  have n: "allPanelIds (frameSlices pairPlugin) = [10, 20, 30, 40]"
    "length (allPanelIds (frameSlices pairPlugin)) = 4"
    by (simp_all add: pairPlugin_def sample_allPanelIds)
  from getPluginFrame_frame_count
    [OF inService_samples(2) spareBuffer_fits(2), of 0, unfolded n(2), unfolded n(1)]
  have "\<exists>t. getPluginFrame pairPlugin spareBuffer 0 = Some (Inr t) \<and> nFrames t = 4 \<and>
      map panelId (take 4 (outFrames t)) = [10, 20, 30, 40] \<and>
      drop 4 (outFrames t) = drop 4 spareBuffer"
    by (simp only: of_nat_numeral) (elim exE conjE, intro exI conjI; assumption)
  with inService_samples(2) spareBuffer_fits(2) show ?thesis by blast
qed

theorem getPluginFrame_one_panel_lit_witness:
  "inService columnPlugin \<and>
   length (allPanelIds (frameSlices columnPlugin)) \<le> length spareBuffer \<and>
   (\<exists>t. getPluginFrame columnPlugin spareBuffer 0 = Some (Inr t) \<and>
      take 5 (outFrames t) =
        [blackFrame 10, blackFrame 20,
         \<lparr>panelId = 40, r = 255, g = 0, b = 0, transTime = 1\<rparr>,
         blackFrame 30, blackFrame 50])"
proof -
  from getPluginFrame_one_panel_lit [OF inService_samples(1) spareBuffer_fits(1), of 0]
  obtain t where "getPluginFrame columnPlugin spareBuffer 0 = Some (Inr t)"
    by blast
  moreover have "map_option (map_sum id (take 5 \<circ> outFrames))
      (getPluginFrame columnPlugin spareBuffer 0) =
      Some (Inr [blackFrame 10, blackFrame 20,
         \<lparr>panelId = 40, r = 255, g = 0, b = 0, transTime = 1\<rparr>,
         blackFrame 30, blackFrame 50])"
    by (simp add: run_defs columnPlugin_def spareBuffer_def blackFrame_def)
  ultimately show ?thesis
    using inService_samples(1) spareBuffer_fits(1) by simp
qed

theorem getPluginFrame_sleepTime_witness:
  "inService amberPlugin \<and>
   length (allPanelIds (frameSlices amberPlugin)) \<le> length spareBuffer \<and>
   - (2 ^ 31) \<le> transitionTime amberPlugin \<and> transitionTime amberPlugin < 2 ^ 31 \<and>
   currentColorIndex amberPlugin = YELLOW \<and>
   (\<exists>t. getPluginFrame amberPlugin spareBuffer 0 = Some (Inr t) \<and> sleepTime t = 20) \<and>
   truncated (0.4 * real_of_int (transitionTime amberPlugin)) = 20"
proof -
  have range: "- (2 ^ 31) \<le> transitionTime amberPlugin" "transitionTime amberPlugin < 2 ^ 31"
    and y: "currentColorIndex amberPlugin = YELLOW"
    by (simp_all add: amberPlugin_def YELLOW_def)
  from getPluginFrame_sleepTime [OF inService_samples(3) spareBuffer_fits(3) range, of 0] y
  obtain t where t: "getPluginFrame amberPlugin spareBuffer 0 = Some (Inr t)"
    "sleepTime t = truncated (0.4 * real_of_int (transitionTime amberPlugin))"
    by blast
  from t(1) have "sleepTime t = 20"
    by (auto simp: amberPlugin_tick)
  with t range y inService_samples(3) spareBuffer_fits(3) show ?thesis
    by auto
qed


end
